theory Spec2Isabelle
  imports Main "HOL-Library.Word" "HOL-Library.Monad_Syntax"
begin

unbundle bit_operations_syntax

section \<open>Go runtime conventions\<close>

text \<open>
  The relay is a single Go file, \<^verbatim>\<open>webpush-fcm-relay.go\<close>, of which the repository
  holds two revisions: the older one sends an \<^verbatim>\<open>fcm.Message\<close>, the later one a
  \<^verbatim>\<open>messaging.Message\<close>. Their functions \<^verbatim>\<open>encode85\<close>, \<^verbatim>\<open>parseKeyValues\<close> and
  \<^verbatim>\<open>encodedValue\<close> are the same; their handlers differ and are modelled one by one,
  the older as \<open>handler\<close> and the later as \<open>handler_messaging\<close>. A Go byte is an
  \<open>8 word\<close>; a Go string is a sequence of bytes and is modelled as a HOL
  \<open>string\<close>. A run-time panic (index or slice bound out of range) is the value
  \<open>None\<close> of an option type, so that every place where the program can panic is a
  branch of the model.
\<close>

type_synonym byte = "8 word"

definition index :: "'a list \<Rightarrow> nat \<Rightarrow> 'a option" where
  \<comment> \<open>\<^verbatim>\<open>xs[i]\<close> as a value: panics when \<open>i\<close> is out of range.\<close>
  "index xs i = (if i < length xs then Some (xs ! i) else None)"

definition index_int :: "'a list \<Rightarrow> int \<Rightarrow> 'a option" where
  \<comment> \<open>\<^verbatim>\<open>xs[i]\<close> for a signed index: a negative index panics as well.\<close>
  "index_int xs i = (if 0 \<le> i then index xs (nat i) else None)"

definition store :: "'a list \<Rightarrow> nat \<Rightarrow> 'a \<Rightarrow> 'a list option" where
  \<comment> \<open>\<^verbatim>\<open>xs[i] = v\<close>: panics when \<open>i\<close> is out of range.\<close>
  "store xs i v = (if i < length xs then Some (xs[i := v]) else None)"

definition slice_from :: "'a list \<Rightarrow> nat \<Rightarrow> 'a list option" where
  \<comment> \<open>\<^verbatim>\<open>xs[n:]\<close>: panics when \<open>n\<close> exceeds the length.\<close>
  "slice_from xs n = (if n \<le> length xs then Some (drop n xs) else None)"

definition quo :: "int \<Rightarrow> int \<Rightarrow> int" where
  \<comment> \<open>Go's \<^verbatim>\<open>/\<close> on signed integers truncates towards zero.\<close>
  "quo a b = sgn a * sgn b * (\<bar>a\<bar> div \<bar>b\<bar>)"

definition rem :: "int \<Rightarrow> int \<Rightarrow> int" where
  \<comment> \<open>Go's \<^verbatim>\<open>%\<close> on signed integers: the remainder of the truncated division.\<close>
  "rem a b = a - b * quo a b"

definition Uint32 :: "byte list \<Rightarrow> 32 word option" where
  \<comment> \<open>\<^verbatim>\<open>binary.BigEndian.Uint32\<close> of the standard library:
      \<^verbatim>\<open>uint32(b[3]) | uint32(b[2])<<8 | uint32(b[1])<<16 | uint32(b[0])<<24\<close>,
      after the bounds check \<^verbatim>\<open>_ = b[3]\<close>.\<close>
  "Uint32 b =
     (if length b < 4 then None
      else Some (ucast (b ! 3) OR push_bit 8 (ucast (b ! 2)) OR
                 push_bit 16 (ucast (b ! 1)) OR push_bit 24 (ucast (b ! 0))))"

section \<open>The base-85 encoder\<close>

definition z85digits :: string where
  "z85digits =
     ''0123456789abcdefghijklmnopqrstuvwxyzABCDEFGHIJKLMNOPQRSTUVWXYZ.-:+=^!/*?&<>()[]{}@%$#''"

text \<open>
  \<^verbatim>\<open>encode85\<close> fills a zeroed buffer \<open>encodedBytes\<close> through the slice \<open>dest\<close>, which
  shares the buffer's storage. The model keeps the buffer and the offset \<open>off\<close> at which
  \<open>dest\<close> starts, so that \<^verbatim>\<open>dest[j] = c\<close> is a store at \<open>off + j\<close>.

  The inner loop of a block: \<^verbatim>\<open>for i := 0; i < 5; i++ { dest[4-i] = z85digits[value%85];
  value /= 85 }\<close> on a \<^verbatim>\<open>uint32\<close>.
\<close>

function encode85_block_digits :: "nat \<Rightarrow> 32 word \<Rightarrow> string \<Rightarrow> nat \<Rightarrow> string option" where
  "encode85_block_digits i v enc off =
     (if i < 5 then
        do {
          d \<leftarrow> index z85digits (unat (v mod 85));
          enc' \<leftarrow> store enc (off + (4 - i)) d;
          encode85_block_digits (i + 1) (v div 85) enc' off
        }
      else Some enc)"
  by pat_completeness auto
termination
  by (relation "measure (\<lambda>(i, v, enc, off). 5 - i)") auto

text \<open>
  The block loop: \<^verbatim>\<open>for block := 0; block < numBlocks; block++\<close> reads four bytes
  of \<open>src\<close>, writes five digits, then advances \<^verbatim>\<open>src = src[4:]\<close> and
  \<^verbatim>\<open>dest = dest[5:]\<close>. It returns the remaining source, the buffer and the offset
  of \<open>dest\<close>.
\<close>

function encode85_blocks ::
  "nat \<Rightarrow> nat \<Rightarrow> byte list \<Rightarrow> string \<Rightarrow> nat \<Rightarrow> (byte list \<times> string \<times> nat) option" where
  "encode85_blocks block numBlocks src enc off =
     (if block < numBlocks then
        do {
          v \<leftarrow> Uint32 src;
          enc' \<leftarrow> encode85_block_digits 0 v enc off;
          src' \<leftarrow> slice_from src 4;
          if off + 5 \<le> length enc'
          then encode85_blocks (block + 1) numBlocks src' enc' (off + 5)
          else None
        }
      else Some (src, enc, off))"
  by pat_completeness auto
termination
  by (relation "measure (\<lambda>(block, numBlocks, src, enc, off). numBlocks - block)") auto

text \<open>
  The remainder: \<^verbatim>\<open>value\<close> is a Go \<^verbatim>\<open>int\<close>, built by
  \<^verbatim>\<open>value *= 256; value |= int(src[i])\<close>. At most three bytes are accumulated, so the
  value stays below \<open>2 ^ 24\<close> and no width of \<^verbatim>\<open>int\<close> overflows; it is an \<open>int\<close> here.
\<close>

function encode85_suffix_value :: "nat \<Rightarrow> nat \<Rightarrow> byte list \<Rightarrow> int \<Rightarrow> int option" where
  "encode85_suffix_value i suffixLength src v =
     (if i < suffixLength then
        do {
          b \<leftarrow> index src i;
          encode85_suffix_value (i + 1) suffixLength src ((v * 256) OR uint b)
        }
      else Some v)"
  by pat_completeness auto
termination
  by (relation "measure (\<lambda>(i, suffixLength, src, v). suffixLength - i)") auto

function encode85_suffix_digits ::
  "nat \<Rightarrow> nat \<Rightarrow> int \<Rightarrow> string \<Rightarrow> nat \<Rightarrow> string option" where
  "encode85_suffix_digits i suffixLength v enc off =
     (if i < suffixLength + 1 then
        do {
          d \<leftarrow> index_int z85digits (rem v 85);
          enc' \<leftarrow> store enc (off + (suffixLength - i)) d;
          encode85_suffix_digits (i + 1) suffixLength (quo v 85) enc' off
        }
      else Some enc)"
  by pat_completeness auto
termination
  by (relation "measure (\<lambda>(i, suffixLength, v, enc, off). suffixLength + 1 - i)") auto

definition encode85 :: "byte list \<Rightarrow> string option" where
  "encode85 bytes =
     (let numBlocks = length bytes div 4;
          suffixLength = length bytes mod 4;
          encodedLength = numBlocks * 5;
          encodedLength = (if suffixLength \<noteq> 0 then encodedLength + (suffixLength + 1)
                           else encodedLength);
          encodedBytes = replicate encodedLength (CHR 0x00)
      in do {
           (src, enc, off) \<leftarrow> encode85_blocks 0 numBlocks bytes encodedBytes 0;
           if suffixLength \<noteq> 0 then
             do {
               v \<leftarrow> encode85_suffix_value 0 suffixLength src 0;
               encode85_suffix_digits 0 suffixLength v enc off
             }
           else Some enc
         })"

subsection \<open>The reference expansion\<close>

text \<open>
  The specification's encoder, written from its words: \<open>digits85 k v\<close> is the \<open>k\<close>
  low base-85 digits of \<open>v\<close> in the alphabet, most significant first; \<open>be_value\<close>
  reads bytes as a big-endian number; each complete block of four bytes gives five
  digits and a remainder of one to three bytes gives one digit more than it has bytes.
\<close>

fun digits85 :: "nat \<Rightarrow> nat \<Rightarrow> string" where
  "digits85 0 v = []"
| "digits85 (Suc k) v = digits85 k (v div 85) @ [z85digits ! (v mod 85)]"

definition be_value :: "byte list \<Rightarrow> nat" where
  "be_value bs = foldl (\<lambda>a b. 256 * a + unat b) 0 bs"

fun encode_ref :: "byte list \<Rightarrow> string" where
  "encode_ref (a # b # c # d # rest) = digits85 5 (be_value [a, b, c, d]) @ encode_ref rest"
| "encode_ref [] = []"
| "encode_ref bs = digits85 (length bs + 1) (be_value bs)"


section \<open>Standard-library functions used by the handler\<close>

text \<open>
  \<^verbatim>\<open>strings.Split(s, sep)\<close> for a separator of one character (the program splits on
  \<^verbatim>\<open>"/"\<close> and \<^verbatim>\<open>"="\<close> only): the pieces between the separators, of which there is
  always at least one. \<open>cur\<close> is the piece being scanned.
\<close>

fun split_from :: "string \<Rightarrow> string \<Rightarrow> char \<Rightarrow> string list" where
  "split_from cur [] sep = [cur]"
| "split_from cur (c # cs) sep =
     (if c = sep then cur # split_from [] cs sep else split_from (cur @ [c]) cs sep)"

definition Split :: "string \<Rightarrow> char \<Rightarrow> string list" where
  "Split s sep = split_from [] s sep"

fun Join :: "string list \<Rightarrow> string \<Rightarrow> string" where
  "Join [] sep = []"
| "Join [x] sep = x"
| "Join (x # y # zs) sep = x @ sep @ Join (y # zs) sep"

text \<open>
  \<^verbatim>\<open>strings.FieldsFunc(s, f)\<close>: the maximal runs of characters that do not satisfy
  \<open>f\<close>; empty fields are dropped.
\<close>

fun fields_from :: "string \<Rightarrow> string \<Rightarrow> (char \<Rightarrow> bool) \<Rightarrow> string list" where
  "fields_from cur [] f = (if cur = [] then [] else [cur])"
| "fields_from cur (c # cs) f =
     (if f c then (if cur = [] then [] else [cur]) @ fields_from [] cs f
      else fields_from (cur @ [c]) cs f)"

definition FieldsFunc :: "string \<Rightarrow> (char \<Rightarrow> bool) \<Rightarrow> string list" where
  "FieldsFunc s f = fields_from [] s f"

text \<open>
  \<^verbatim>\<open>base64.RawURLEncoding.DecodeString\<close>: the URL alphabet, no padding character, not
  strict. Carriage returns and line feeds are skipped; any other character outside
  the alphabet (the padding character \<^verbatim>\<open>=\<close> included) and a final group of a single
  character are a \<^verbatim>\<open>CorruptInputError\<close>, the value \<open>None\<close> here.
\<close>

definition encodeURL :: string where
  "encodeURL = ''ABCDEFGHIJKLMNOPQRSTUVWXYZabcdefghijklmnopqrstuvwxyz0123456789-_''"

fun position :: "'a \<Rightarrow> 'a list \<Rightarrow> nat option" where
  "position x [] = None"
| "position x (y # ys) = (if x = y then Some 0 else map_option Suc (position x ys))"

definition decodeMap :: "char \<Rightarrow> nat option" where
  "decodeMap c = position c encodeURL"

definition quantum :: "nat \<Rightarrow> nat \<Rightarrow> nat \<Rightarrow> nat \<Rightarrow> byte list" where
  \<comment> \<open>Four 6-bit values give three bytes.\<close>
  "quantum a b c d =
     (let val = ((a * 64 + b) * 64 + c) * 64 + d
      in [of_nat (val div 65536), of_nat (val div 256), of_nat val])"

fun decode_quanta :: "nat list \<Rightarrow> byte list option" where
  "decode_quanta (a # b # c # d # rest) =
     map_option (\<lambda>bs. quantum a b c d @ bs) (decode_quanta rest)"
| "decode_quanta [a, b, c] = Some (take 2 (quantum a b c 0))"
| "decode_quanta [a, b] = Some (take 1 (quantum a b 0 0))"
| "decode_quanta [a] = None"
| "decode_quanta [] = Some []"

definition DecodeString :: "string \<Rightarrow> byte list option" where
  "DecodeString s =
     (case those (map decodeMap (filter (\<lambda>c. c \<noteq> CHR 0x0A \<and> c \<noteq> CHR 0x0D) s)) of
        None \<Rightarrow> None
      | Some ds \<Rightarrow> decode_quanta ds)"

text \<open>
  \<^verbatim>\<open>strconv.Atoi\<close>: an optional sign, then at least one decimal digit and nothing
  else; the value must fit Go's \<^verbatim>\<open>int\<close>, taken to be 64 bits wide (the image is built
  for a 64-bit platform). \<open>None\<close> is the returned error.
\<close>

fun parse_digits :: "string \<Rightarrow> nat \<Rightarrow> nat option" where
  "parse_digits [] n = Some n"
| "parse_digits (ch # s) n =
     (case position ch ''0123456789'' of
        None \<Rightarrow> None
      | Some d \<Rightarrow> parse_digits s (n * 10 + d))"

definition Atoi :: "string \<Rightarrow> int option" where
  "Atoi s0 =
     (let neg = (s0 \<noteq> [] \<and> hd s0 = CHR ''-'');
          s = (if s0 \<noteq> [] \<and> (hd s0 = CHR ''-'' \<or> hd s0 = CHR ''+'') then tl s0 else s0)
      in if s = [] then None
         else (case parse_digits s 0 of
                 None \<Rightarrow> None
               | Some n \<Rightarrow>
                   (let v = (if neg then - int n else int n)
                    in if - (2 ^ 63) \<le> v \<and> v < 2 ^ 63 then Some v else None)))"

text \<open>
  \<^verbatim>\<open>http.Header\<close> maps a header name to its values; \<^verbatim>\<open>Get\<close> returns the first value
  and the empty string for an absent header. The names are the ones the handler asks
  for.
\<close>

type_synonym http_Header = "string \<rightharpoonup> string list"

definition Get :: "http_Header \<Rightarrow> string \<Rightarrow> string" where
  "Get h key = (case h key of None \<Rightarrow> [] | Some [] \<Rightarrow> [] | Some (v # vs) \<Rightarrow> v)"

section \<open>Header values\<close>

text \<open>
  \<^verbatim>\<open>parseKeyValues\<close> splits the header value at semicolons and each entry at \<^verbatim>\<open>=\<close>, then
  stores \<^verbatim>\<open>m[parts[0]] = parts[1]\<close>. Nothing checks that \<open>parts\<close> has a second
  element: the index expression panics when it has not.
\<close>

fun parseKeyValues_entries ::
  "string list \<Rightarrow> (string \<rightharpoonup> string) \<Rightarrow> (string \<rightharpoonup> string) option" where
  "parseKeyValues_entries [] m = Some m"
| "parseKeyValues_entries (entry # entries) m =
     (let parts = Split entry (CHR ''='')
      in do {
           k \<leftarrow> index parts 0;
           v \<leftarrow> index parts 1;
           parseKeyValues_entries entries (m(k \<mapsto> v))
         })"

definition parseKeyValues :: "string \<Rightarrow> (string \<rightharpoonup> string) option" where
  "parseKeyValues values =
     parseKeyValues_entries (FieldsFunc values (\<lambda>c. c = CHR '';'')) Map.empty"

datatype error =
    NotFound string string  \<comment> \<open>\<^verbatim>\<open>"Value %s not found in header %s"\<close> with key and name\<close>
  | CorruptInputError       \<comment> \<open>\<^verbatim>\<open>"illegal base64 data at input byte ..."\<close>\<close>

text \<open>
  \<^verbatim>\<open>encodedValue\<close> returns a string or an error; a panic below it is \<open>None\<close>.
\<close>

definition encodedValue :: "http_Header \<Rightarrow> string \<Rightarrow> string \<Rightarrow> (error + string) option" where
  "encodedValue header name key =
     do {
       keyValues \<leftarrow> parseKeyValues (Get header name);
       (case keyValues key of
          None \<Rightarrow> Some (Inl (NotFound key name))
        | Some v \<Rightarrow>
            (case DecodeString v of
               None \<Rightarrow> Some (Inl CorruptInputError)
             | Some bytes \<Rightarrow> map_option Inr (encode85 bytes)))
     }"

section \<open>The request handler\<close>

text \<open>
  The request as the handler reads it: the path of the URL, the headers and the bytes
  of the body. The message is \<^verbatim>\<open>fcm.Message\<close> with the fields the handler sets. Its
  \<open>Data\<close> is declared \<^verbatim>\<open>map[string]interface{}\<close>, but the handler stores strings only,
  so it is a map from strings to strings here. \<^verbatim>\<open>TimeToLive\<close> is a \<^verbatim>\<open>*uint\<close>: \<open>None\<close>
  is the nil pointer. This section is the handler of the older revision.
\<close>

record Request =
  Path :: string
  Header :: http_Header
  Body :: "byte list"

record fcm_Notification =
  Title :: string

record fcm_Message =
  To :: string
  Data :: "string \<rightharpoonup> string"
  MutableContent :: bool
  ContentAvailable :: bool
  Notification :: fcm_Notification
  TimeToLive :: "64 word option"
  CollapseKey :: string
  Priority :: string

text \<open>
  What a call of the handler does: it answers with \<^verbatim>\<open>http.Error\<close> and returns, or it
  sends the message on \<open>messageChan\<close> and answers 201, or it panics. The request
  identifier and the log lines are left out.
\<close>

datatype outcome =
    Http_Error nat string
  | Queued fcm_Message
  | Panic

definition StatusBadRequest :: nat where
  "StatusBadRequest = 400"

definition StatusUnsupportedMediaType :: nat where
  "StatusUnsupportedMediaType = 415"

definition trumpet :: string where
  \<comment> \<open>The title literal, U+1F3BA, as its four UTF-8 bytes.\<close>
  "trumpet = [CHR 0xF0, CHR 0x9F, CHR 0x8E, CHR 0xBA]"

definition handler :: "Request \<Rightarrow> outcome" where
  "handler request =
     (let components = Split (Path request) (CHR ''/'')
      in if length components < 4 then Http_Error StatusBadRequest ''Invalid URL path''
         else if components ! 2 \<noteq> ''fcm''
         then Http_Error StatusBadRequest ''Invalid target environment''
         else
           let deviceToken = components ! 3
           in if deviceToken = [] then Http_Error StatusBadRequest ''Missing device token''
              else
                (case encode85 (Body request) of
                   None \<Rightarrow> Panic
                 | Some encodedString \<Rightarrow>
                     let message =
                           \<lparr>To = deviceToken,
                            Data = [''p'' \<mapsto> encodedString],
                            MutableContent = True,
                            ContentAvailable = True,
                            Notification = \<lparr>Title = trumpet\<rparr>,
                            TimeToLive = None,
                            CollapseKey = [],
                            Priority = []\<rparr>;
                         message =
                           (if length components > 4
                            then message\<lparr>Data := (Data message)
                                   (''x'' \<mapsto> Join (drop 4 components) ''/'')\<rparr>
                            else message)
                     in if Get (Header request) ''Content-Encoding'' = ''aesgcm'' then
                          (case encodedValue (Header request) ''Crypto-Key'' ''dh'' of
                             None \<Rightarrow> Panic
                           | Some (Inl err) \<Rightarrow>
                               Http_Error StatusBadRequest ''Error retrieving public key''
                           | Some (Inr publicKey) \<Rightarrow>
                               let message =
                                     message\<lparr>Data := (Data message)(''k'' \<mapsto> publicKey)\<rparr>
                               in (case encodedValue (Header request) ''Encryption'' ''salt'' of
                                     None \<Rightarrow> Panic
                                   | Some (Inl err) \<Rightarrow>
                                       Http_Error StatusBadRequest ''Error retrieving salt''
                                   | Some (Inr salt) \<Rightarrow>
                                       let message =
                                             message\<lparr>Data := (Data message)(''s'' \<mapsto> salt)\<rparr>;
                                           seconds = Get (Header request) ''TTL'';
                                           message =
                                             (if seconds \<noteq> [] then
                                                (case Atoi seconds of
                                                   Some ttl \<Rightarrow>
                                                     message\<lparr>TimeToLive :=
                                                       Some (word_of_int ttl)\<rparr>
                                                 | None \<Rightarrow> message)
                                              else message);
                                           topic = Get (Header request) ''Topic'';
                                           message =
                                             (if topic \<noteq> [] then message\<lparr>CollapseKey := topic\<rparr>
                                              else message);
                                           urgency = Get (Header request) ''Urgency'';
                                           message =
                                             (if urgency = ''very-low'' \<or> urgency = ''low''
                                              then message\<lparr>Priority := ''normal''\<rparr>
                                              else message\<lparr>Priority := ''high''\<rparr>)
                                       in Queued message))
                        else Http_Error StatusUnsupportedMediaType
                               ''Unsupported content encoding''))"

text \<open>
  The path conditions of the handler, for stating its properties: the segments of the
  path, whether they pass the three checks, and the three answers the checks give.
\<close>

definition segments :: "Request \<Rightarrow> string list" where
  "segments request = Split (Path request) (CHR ''/'')"

definition path_accepted :: "Request \<Rightarrow> bool" where
  "path_accepted request =
     (4 \<le> length (segments request) \<and> segments request ! 2 = ''fcm'' \<and>
      segments request ! 3 \<noteq> [])"

definition path_rejection :: "outcome \<Rightarrow> bool" where
  "path_rejection out =
     (out = Http_Error StatusBadRequest ''Invalid URL path'' \<or>
      out = Http_Error StatusBadRequest ''Invalid target environment'' \<or>
      out = Http_Error StatusBadRequest ''Missing device token'')"

section \<open>The request handler of the later revision\<close>

text \<open>
  The later revision builds a \<^verbatim>\<open>messaging.Message\<close>. Its literal sets \<^verbatim>\<open>Token\<close>,
  \<^verbatim>\<open>Android\<close> (with \<^verbatim>\<open>Data\<close> holding \<^verbatim>\<open>p\<close>, and the notification's title) and \<^verbatim>\<open>APNS\<close>; the
  message's own \<^verbatim>\<open>Data\<close>, a \<^verbatim>\<open>map[string]string\<close>, is not set and so is the nil map. The
  handler then assigns \<^verbatim>\<open>message.Data["x"]\<close>, \<^verbatim>\<open>message.Data["k"]\<close> and
  \<^verbatim>\<open>message.Data["s"]\<close>: an assignment to an entry of a nil map is a run-time panic.
\<close>

datatype ('k, 'v) go_map =
    Nil_map
  | Map "'k \<rightharpoonup> 'v"

definition assign :: "('k, 'v) go_map \<Rightarrow> 'k \<Rightarrow> 'v \<Rightarrow> ('k, 'v) go_map option" where
  \<comment> \<open>\<^verbatim>\<open>m[k] = v\<close>: panics (\<open>None\<close>) when \<open>m\<close> is the nil map.\<close>
  "assign m k v = (case m of Nil_map \<Rightarrow> None | Map f \<Rightarrow> Some (Map (f(k \<mapsto> v))))"

record messaging_AndroidConfig =
  Android_Data :: "string \<rightharpoonup> string"
  Android_Notification_Title :: string
  Android_TTL :: "64 word option"
  Android_CollapseKey :: string
  Android_Priority :: string

record messaging_Message =
  Token :: string
  Message_Data :: "(string, string) go_map"
  Android :: messaging_AndroidConfig
  APNS_ContentAvailable :: bool
  APNS_MutableContent :: bool

text \<open>
  \<open>Sent m\<close> is the handler reaching the send \<^verbatim>\<open>messageChan <- message\<close> with the
  message \<open>m\<close>. \<^verbatim>\<open>Android.TTL\<close> is a \<^verbatim>\<open>*time.Duration\<close>, a number of nanoseconds in 64
  bits: \<^verbatim>\<open>time.Duration(ttl) * time.Second\<close> multiplies by \<open>10 ^ 9\<close> and wraps.
\<close>

datatype messaging_outcome =
    Messaging_Http_Error nat string
  | Sent messaging_Message
  | Messaging_Panic

definition handler_messaging :: "Request \<Rightarrow> messaging_outcome" where
  "handler_messaging request =
     (let components = Split (Path request) (CHR ''/'')
      in if length components < 4
         then Messaging_Http_Error StatusBadRequest ''Invalid URL path''
         else if components ! 2 \<noteq> ''fcm''
         then Messaging_Http_Error StatusBadRequest ''Invalid target environment''
         else
           let deviceToken = components ! 3
           in if deviceToken = []
              then Messaging_Http_Error StatusBadRequest ''Missing device token''
              else
                (case encode85 (Body request) of
                   None \<Rightarrow> Messaging_Panic
                 | Some encodedString \<Rightarrow>
                     let message =
                           \<lparr>Token = deviceToken,
                            Message_Data = Nil_map,
                            Android =
                              \<lparr>Android_Data = [''p'' \<mapsto> encodedString],
                               Android_Notification_Title = trumpet,
                               Android_TTL = None,
                               Android_CollapseKey = [],
                               Android_Priority = []\<rparr>,
                            APNS_ContentAvailable = True,
                            APNS_MutableContent = True\<rparr>
                     in (case (if length components > 4
                               then map_option (\<lambda>d. message\<lparr>Message_Data := d\<rparr>)
                                      (assign (Message_Data message) ''x''
                                         (Join (drop 4 components) ''/''))
                               else Some message) of
                           None \<Rightarrow> Messaging_Panic
                         | Some message \<Rightarrow>
                             if Get (Header request) ''Content-Encoding'' = ''aesgcm'' then
                               (case encodedValue (Header request) ''Crypto-Key'' ''dh'' of
                                  None \<Rightarrow> Messaging_Panic
                                | Some (Inl err) \<Rightarrow>
                                    Messaging_Http_Error StatusBadRequest
                                      ''Error retrieving public key''
                                | Some (Inr publicKey) \<Rightarrow>
                                    (case assign (Message_Data message) ''k'' publicKey of
                                       None \<Rightarrow> Messaging_Panic
                                     | Some d \<Rightarrow>
                                         let message = message\<lparr>Message_Data := d\<rparr>
                                         in (case encodedValue (Header request)
                                                    ''Encryption'' ''salt'' of
                                               None \<Rightarrow> Messaging_Panic
                                             | Some (Inl err) \<Rightarrow>
                                                 Messaging_Http_Error StatusBadRequest
                                                   ''Error retrieving salt''
                                             | Some (Inr salt) \<Rightarrow>
                                                 (case assign (Message_Data message) ''s'' salt of
                                                    None \<Rightarrow> Messaging_Panic
                                                  | Some d \<Rightarrow>
  let message = message\<lparr>Message_Data := d\<rparr>;
      seconds = Get (Header request) ''TTL'';
      message =
        (if seconds \<noteq> [] then
           (case Atoi seconds of
              Some ttl \<Rightarrow>
                message\<lparr>Android := (Android message)
                  \<lparr>Android_TTL := Some (word_of_int ttl * 1000000000)\<rparr>\<rparr>
            | None \<Rightarrow> message)
         else message);
      topic = Get (Header request) ''Topic'';
      message =
        (if topic \<noteq> []
         then message\<lparr>Android := (Android message)\<lparr>Android_CollapseKey := topic\<rparr>\<rparr>
         else message);
      urgency = Get (Header request) ''Urgency'';
      message =
        (if urgency = ''very-low'' \<or> urgency = ''low''
         then message\<lparr>Android := (Android message)\<lparr>Android_Priority := ''normal''\<rparr>\<rparr>
         else message\<lparr>Android := (Android message)\<lparr>Android_Priority := ''high''\<rparr>\<rparr>)
  in Sent message))))
                             else Messaging_Http_Error StatusUnsupportedMediaType
                                    ''Unsupported content encoding'')))"

section \<open>Correctness of the encoder\<close>

text \<open>
  The loops are unfolded one step at a time in the proofs below, never by the
  simplifier on its own.
\<close>

lemma length_z85digits: "length z85digits = 85"
  by (simp add: z85digits_def)

lemma or_push_bit_nat:
  fixes x y :: nat
  assumes "x < 2 ^ n"
  shows "x OR push_bit n y = x + push_bit n y"
proof -
  have x: "take_bit n x = x" using assms by (simp add: take_bit_nat_eq_self)
  have "\<not> bit (take_bit n x) m \<or> \<not> bit (push_bit n y) m" for m
    by (auto simp: bit_simps)
  then have "take_bit n x + push_bit n y = take_bit n x OR push_bit n y"
    by (rule disjunctive_add)
  then show ?thesis by (simp add: x)
qed

lemma or_push_bit_int:
  fixes x y :: int
  assumes "0 \<le> x" "x < 2 ^ n"
  shows "push_bit n y OR x = push_bit n y + x"
proof -
  have x: "take_bit n x = x" using assms by (simp add: take_bit_int_eq_self)
  have "\<not> bit (push_bit n y) m \<or> \<not> bit (take_bit n x) m" for m
    by (auto simp: bit_simps)
  then have "push_bit n y + take_bit n x = push_bit n y OR take_bit n x"
    by (rule disjunctive_add)
  then show ?thesis by (simp add: x)
qed

lemma unat_byte_less: "unat (b :: byte) < 256"
  using unsigned_less [of b, where ?'a = nat] by simp

lemma Uint32_value:
  "Uint32 (a # b # c # d # rest) = Some w \<Longrightarrow> unat w = be_value [a, b, c, d]"
proof -
  assume h: "Uint32 (a # b # c # d # rest) = Some w"
  let ?A = "unat a" and ?B = "unat b" and ?C = "unat c" and ?D = "unat d"
  have bA: "?A < 256" and bB: "?B < 256" and bC: "?C < 256" and bD: "?D < 256"
    by (rule unat_byte_less)+
  have w: "w = ucast d OR push_bit 8 (ucast c) OR push_bit 16 (ucast b) OR push_bit 24 (ucast a)"
    using h by (simp add: Uint32_def)
  have s8: "take_bit 32 (push_bit 8 ?C) = push_bit 8 ?C"
    using bC by (simp add: take_bit_nat_eq_self push_bit_eq_mult)
  have s16: "take_bit 32 (push_bit 16 ?B) = push_bit 16 ?B"
    using bB by (simp add: take_bit_nat_eq_self push_bit_eq_mult)
  have s24: "take_bit 32 (push_bit 24 ?A) = push_bit 24 ?A"
    using bA by (simp add: take_bit_nat_eq_self push_bit_eq_mult)
  have "unat w = ?D OR push_bit 8 ?C OR push_bit 16 ?B OR push_bit 24 ?A"
    unfolding w using bA bB bC bD
    by (simp add: unsigned_or_eq unsigned_push_bit_eq unsigned_ucast_eq s8 s16 s24 take_bit_nat_eq_self)
  also have "\<dots> = ?D OR push_bit 8 (?C OR push_bit 8 (?B OR push_bit 8 ?A))"
    by simp
  also have "\<dots> = ?D + push_bit 8 (?C + push_bit 8 (?B + push_bit 8 ?A))"
    using bB bC bD by (simp add: or_push_bit_nat)
  also have "\<dots> = be_value [a, b, c, d]"
    by (simp add: be_value_def push_bit_eq_mult)
  finally show ?thesis .
qed


declare encode85_block_digits.simps [simp del]
declare encode85_blocks.simps [simp del]
declare encode85_suffix_value.simps [simp del]
declare encode85_suffix_digits.simps [simp del]

lemma index_z85digits: "n < 85 \<Longrightarrow> index z85digits n = Some (z85digits ! n)"
  by (simp add: index_def length_z85digits)

lemma store_window:
  "store (pre @ w @ x # post) (length pre + length w) d = Some (pre @ w @ d # post)"
  by (simp add: store_def list_update_append)

lemma encode85_block_digits_window:
  "length w = 5 - i \<Longrightarrow> i \<le> 5 \<Longrightarrow>
   encode85_block_digits i v (pre @ w @ post) (length pre)
     = Some (pre @ digits85 (5 - i) (unat v) @ post)"
proof (induction w arbitrary: i v post rule: rev_induct)
  case Nil
  then have "i = 5" by simp
  then show ?case by (simp add: encode85_block_digits.simps)
next
  case (snoc x w)
  then have i: "i < 5" and lw: "length w = 5 - (i + 1)" and pos: "4 - i = length w"
    and k: "5 - i = Suc (5 - (i + 1))"
    by simp_all
  have d: "index z85digits (unat (v mod 85)) = Some (z85digits ! (unat v mod 85))"
    by (simp add: index_z85digits unat_mod)
  have st: "store (pre @ (w @ [x]) @ post) (length pre + (4 - i)) (z85digits ! (unat v mod 85))
              = Some (pre @ w @ (z85digits ! (unat v mod 85)) # post)"
    using store_window [of pre w x post] by (simp add: pos)
  have rec: "encode85_block_digits (i + 1) (v div 85) (pre @ w @ (z85digits ! (unat v mod 85)) # post) (length pre)
      = Some (pre @ digits85 (5 - (i + 1)) (unat (v div 85)) @ (z85digits ! (unat v mod 85)) # post)"
    using snoc.IH [OF lw, of "v div 85" "(z85digits ! (unat v mod 85)) # post"] i by simp
  show ?case
    apply (subst encode85_block_digits.simps)
    apply (simp only: i if_True d st rec bind.bind_lunit)
    apply (simp only: k digits85.simps)
    apply (simp add: unat_div)
    done
qed


lemma quo_nat: "quo (int a) 85 = int (a div 85)"
  by (cases "a = 0") (simp_all add: quo_def zdiv_int)

lemma rem_nat: "rem (int a) 85 = int (a mod 85)"
proof -
  have "a = 85 * (a div 85) + a mod 85" by simp
  then have "int a = 85 * int (a div 85) + int (a mod 85)"
    by (metis of_nat_add of_nat_mult of_nat_numeral)
  moreover have "rem (int a) 85 = int a - 85 * int (a div 85)"
    by (simp add: rem_def quo_nat)
  ultimately show ?thesis by linarith
qed

lemma encode85_suffix_digits_window:
  "length w = n + 1 - i \<Longrightarrow> i \<le> n + 1 \<Longrightarrow>
   encode85_suffix_digits i n (int a) (pre @ w @ post) (length pre)
     = Some (pre @ digits85 (n + 1 - i) a @ post)"
proof (induction w arbitrary: i a post rule: rev_induct)
  case Nil
  then have "i = n + 1" by simp
  then show ?case by (simp add: encode85_suffix_digits.simps)
next
  case (snoc x w)
  then have i: "i < n + 1" and lw: "length w = n + 1 - (i + 1)" and pos: "n - i = length w"
    and k: "n + 1 - i = Suc (n + 1 - (i + 1))"
    by simp_all
  let ?d = "z85digits ! (a mod 85)"
  have d: "index_int z85digits (rem (int a) 85) = Some ?d"
    by (simp add: index_int_def rem_nat index_z85digits)
  have st: "store (pre @ (w @ [x]) @ post) (length pre + (n - i)) ?d = Some (pre @ w @ ?d # post)"
    using store_window [of pre w x post] by (simp add: pos)
  have rec: "encode85_suffix_digits (i + 1) n (quo (int a) 85) (pre @ w @ ?d # post) (length pre)
      = Some (pre @ digits85 (n + 1 - (i + 1)) (a div 85) @ ?d # post)"
    using snoc.IH [OF lw, of "a div 85" "?d # post"] i by (simp add: quo_nat)
  show ?case
    apply (subst encode85_suffix_digits.simps)
    apply (simp only: i if_True d st rec bind.bind_lunit)
    apply (simp only: k digits85.simps)
    apply simp
    done
qed

lemma uint_byte_bounds: "0 \<le> uint (b :: byte)" "uint (b :: byte) < 2 ^ 8"
  using uint_lt2p [of b] by simp_all

lemma accumulate_byte: "(int a * 256) OR uint (b :: byte) = int (256 * a + unat b)"
proof -
  have "push_bit 8 (int a) OR uint b = push_bit 8 (int a) + uint b"
    by (rule or_push_bit_int) (rule uint_byte_bounds)+
  then show ?thesis by (simp add: push_bit_eq_mult)
qed

lemma encode85_suffix_value_foldl:
  "n - i = k \<Longrightarrow> i \<le> n \<Longrightarrow> n \<le> length src \<Longrightarrow>
   encode85_suffix_value i n src (int a)
     = Some (int (foldl (\<lambda>a b. 256 * a + unat b) a (take (n - i) (drop i src))))"
proof (induction k arbitrary: i a)
  case 0
  then have "i = n" by simp
  then show ?case by (simp add: encode85_suffix_value.simps)
next
  case (Suc k)
  then have i: "i < n" and il: "i < length src" and k: "n - (i + 1) = k" and le: "i + 1 \<le> n"
    by simp_all
  have ix: "index src i = Some (src ! i)"
    using il by (simp add: index_def)
  have dr: "drop i src = src ! i # drop (i + 1) src"
    using il by (simp add: Cons_nth_drop_Suc)
  have tk: "n - i = Suc (n - (i + 1))"
    using i by simp
  have rec: "encode85_suffix_value (i + 1) n src (int (256 * a + unat (src ! i)))
     = Some (int (foldl (\<lambda>a b. 256 * a + unat b) (256 * a + unat (src ! i)) (take (n - (i + 1)) (drop (i + 1) src))))"
    by (rule Suc.IH [OF k le Suc.prems(3)])
  show ?case
    apply (subst encode85_suffix_value.simps)
    apply (simp only: i if_True ix bind.bind_lunit accumulate_byte rec)
    apply (simp only: dr tk take_Suc_Cons foldl_Cons)
    done
qed

lemma length_digits85: "length (digits85 k v) = k"
  by (induction k arbitrary: v) simp_all

lemma Uint32_Some: "\<exists>w. Uint32 (a # b # c # d # rest) = Some w"
  by (simp add: Uint32_def)

lemma encode85_blocks_window:
  "numBlocks - block = k \<Longrightarrow> 4 * k \<le> length src \<Longrightarrow> length w = 5 * k \<Longrightarrow>
   encode85_blocks block numBlocks src (pre @ w @ post) (length pre)
     = Some (drop (4 * k) src, pre @ encode_ref (take (4 * k) src) @ post, length pre + 5 * k)"
proof (induction k arbitrary: block src pre w)
  case 0
  then have "\<not> block < numBlocks" by simp
  with 0 show ?case by (simp add: encode85_blocks.simps)
next
  case (Suc k)
  then have b: "block < numBlocks" and k: "numBlocks - (block + 1) = k" by simp_all
  from Suc.prems(2) obtain a b c d rest where src: "src = a # b # c # d # rest"
    by (cases src; simp; rename_tac x1 l1; case_tac l1; simp; rename_tac x2 l2; case_tac l2; simp;
        rename_tac x3 l3; case_tac l3; simp)
  obtain v where v: "Uint32 src = Some v"
    using Uint32_Some src by blast
  have uv: "unat v = be_value [a, b, c, d]"
    using v Uint32_value src by blast
  have lr: "4 * k \<le> length rest" using Suc.prems(2) src by simp
  define w5 w' where "w5 = take 5 w" and "w' = drop 5 w"
  have w: "w = w5 @ w'" and lw5: "length w5 = 5 - 0" and lw': "length w' = 5 * k"
    using Suc.prems(3) by (simp_all add: w5_def w'_def)
  let ?ds = "digits85 5 (be_value [a, b, c, d])"
  have dg: "encode85_block_digits 0 v (pre @ w @ post) (length pre) = Some (pre @ ?ds @ w' @ post)"
    using encode85_block_digits_window [OF lw5, of v pre "w' @ post"] by (simp add: w uv)
  have sl: "slice_from src 4 = Some rest"
    by (simp add: slice_from_def src)
  have ck: "length pre + 5 \<le> length (pre @ ?ds @ w' @ post)"
    by (simp add: length_digits85)
  have rec: "encode85_blocks (block + 1) numBlocks rest ((pre @ ?ds) @ w' @ post) (length (pre @ ?ds))
     = Some (drop (4 * k) rest, (pre @ ?ds) @ encode_ref (take (4 * k) rest) @ post, length (pre @ ?ds) + 5 * k)"
    by (rule Suc.IH [OF k lr lw'])
  have rec': "encode85_blocks (block + 1) numBlocks rest (pre @ ?ds @ w' @ post) (length pre + 5)
     = Some (drop (4 * k) rest, pre @ ?ds @ encode_ref (take (4 * k) rest) @ post, length pre + 5 + 5 * k)"
    using rec by (simp add: length_digits85)
  have four: "4 * Suc k = Suc (Suc (Suc (Suc (4 * k))))" by simp
  have tk: "take (4 * Suc k) src = a # b # c # d # take (4 * k) rest"
    and dk: "drop (4 * Suc k) src = drop (4 * k) rest"
    by (simp_all only: four src take_Suc_Cons drop_Suc_Cons)
  show ?case
    apply (subst encode85_blocks.simps)
    apply (simp only: b if_True v dg sl bind.bind_lunit ck rec')
    apply (simp only: tk dk encode_ref.simps)
    apply simp
    done
qed

lemma length_encode_ref:
  "length (encode_ref bs)
     = 5 * (length bs div 4) + (if length bs mod 4 \<noteq> 0 then length bs mod 4 + 1 else 0)"
  by (induction bs rule: encode_ref.induct) (simp_all add: length_digits85 div_add_self1)

lemma encode_ref_append:
  "length xs = 4 * k \<Longrightarrow> encode_ref (xs @ ys) = encode_ref xs @ encode_ref ys"
proof (induction k arbitrary: xs)
  case 0
  then show ?case by simp
next
  case (Suc k)
  then obtain a b c d rest where xs: "xs = a # b # c # d # rest"
    by (cases xs; simp; rename_tac x1 l1; case_tac l1; simp; rename_tac x2 l2; case_tac l2; simp;
        rename_tac x3 l3; case_tac l3; simp)
  with Suc.prems have "length rest = 4 * k" by simp
  then show ?case using Suc.IH [of rest] by (simp add: xs)
qed

lemma encode_ref_short:
  "0 < length bs \<Longrightarrow> length bs < 4 \<Longrightarrow> encode_ref bs = digits85 (length bs + 1) (be_value bs)"
  by (induction bs rule: encode_ref.induct) simp_all

lemma encode85_eq_encode_ref: "encode85 bs = Some (encode_ref bs)"
proof -
  define nb r where "nb = length bs div 4" and "r = length bs mod 4"
  define hd4 tl4 where "hd4 = take (4 * nb) bs" and "tl4 = drop (4 * nb) bs"
  have len: "length bs = 4 * nb + r" and r4: "r < 4"
    by (simp_all add: nb_def r_def)
  have bs: "bs = hd4 @ tl4" and lh: "length hd4 = 4 * nb" and lt: "length tl4 = r"
    using len by (simp_all add: hd4_def tl4_def)
  have leh: "length (encode_ref hd4) = 5 * nb"
    by (simp add: length_encode_ref lh)
  have ref: "encode_ref bs = encode_ref hd4 @ encode_ref tl4"
    unfolding bs using lh by (rule encode_ref_append)
  define post where "post = replicate (if r \<noteq> 0 then r + 1 else 0) (CHR 0x00)"
  define buf where
    "buf = replicate (if r \<noteq> 0 then nb * 5 + (r + 1) else nb * 5) (CHR 0x00)"
  have buf: "buf = [] @ replicate (5 * nb) (CHR 0x00) @ post"
    by (simp add: buf_def post_def replicate_add [symmetric] mult.commute)
  have "encode85_blocks 0 nb bs ([] @ replicate (5 * nb) (CHR 0x00) @ post) (length ([] :: string))
      = Some (tl4, [] @ encode_ref hd4 @ post, length ([] :: string) + 5 * nb)"
    unfolding hd4_def tl4_def
    by (rule encode85_blocks_window) (simp_all add: len)
  then have blocks: "encode85_blocks 0 nb bs buf 0 = Some (tl4, encode_ref hd4 @ post, 5 * nb)"
    by (simp add: buf)
  have unfold: "encode85 bs =
      encode85_blocks 0 nb bs buf 0 \<bind>
        (\<lambda>(src, enc, off).
           if r \<noteq> 0 then encode85_suffix_value 0 r src 0 \<bind>
                              (\<lambda>v. encode85_suffix_digits 0 r v enc off)
           else Some enc)"
    by (simp add: encode85_def Let_def nb_def r_def buf_def)
  show ?thesis
  proof (cases "r = 0")
    case True
    then have "tl4 = []" and "post = []" using lt by (simp_all add: post_def)
    then show ?thesis using True ref by (simp add: unfold blocks)
  next
    case False
    have post: "post = replicate (r + 1) (CHR 0x00) @ []"
      using False by (simp add: post_def)
    have sv: "encode85_suffix_value 0 r tl4 0 = Some (int (be_value tl4))"
      using encode85_suffix_value_foldl [of r 0 r tl4 0] lt by (simp add: be_value_def)
    have "encode85_suffix_digits 0 r (int (be_value tl4))
                 (encode_ref hd4 @ replicate (r + 1) (CHR 0x00) @ []) (length (encode_ref hd4))
               = Some (encode_ref hd4 @ digits85 (r + 1 - 0) (be_value tl4) @ [])"
      by (rule encode85_suffix_digits_window) simp_all
    then have sd: "encode85_suffix_digits 0 r (int (be_value tl4)) (encode_ref hd4 @ post) (5 * nb)
               = Some (encode_ref hd4 @ digits85 (r + 1) (be_value tl4))"
      by (simp only: post leh diff_zero append_Nil2)
    have tl: "encode_ref tl4 = digits85 (r + 1) (be_value tl4)"
      using encode_ref_short [of tl4] False r4 lt by simp
    show ?thesis
      by (simp only: unfold blocks bind.bind_lunit prod.case False not_False_eq_True if_True
            sv sd ref tl)
  qed
qed

lemma digits85_5:
  "digits85 5 v =
     [z85digits ! (v div 85 div 85 div 85 div 85 mod 85), z85digits ! (v div 85 div 85 div 85 mod 85),
      z85digits ! (v div 85 div 85 mod 85), z85digits ! (v div 85 mod 85), z85digits ! (v mod 85)]"
proof -
  have "(5::nat) = Suc (Suc (Suc (Suc (Suc 0))))" by simp
  then show ?thesis by (simp only: digits85.simps append.simps)
qed

lemma digits85_2: "digits85 2 v = [z85digits ! (v div 85 mod 85), z85digits ! (v mod 85)]"
proof -
  have "(2::nat) = Suc (Suc 0)" by simp
  then show ?thesis by (simp only: digits85.simps append.simps)
qed

lemma z85digits_0: "z85digits ! 0 = CHR ''0''" by (simp add: z85digits_def)
lemma z85digits_3: "z85digits ! 3 = CHR ''3''" by (simp add: z85digits_def)

lemma encode_ref_zero_block: "encode_ref [0x00, 0x00, 0x00, 0x00] = ''00000''"
  by (simp add: be_value_def digits85_5 z85digits_0)

lemma encode_ref_single_255: "encode_ref [0xFF] = ''30''"
  by (simp add: be_value_def digits85_2 z85digits_0 z85digits_3)

text \<open>
  Claim C1. For every byte sequence the encoder returns, without a panic, the reference
  base-85 expansion: each complete block of four bytes is read as a big-endian
  unsigned 32-bit number and written as five characters of the 85-character
  alphabet, most significant digit first, and a remainder of one to three bytes is
  accumulated big-endian and written as one character more than it has bytes. In
  particular the empty input gives the empty string, four zero bytes give
  \<open>''00000''\<close> and the single byte 255 gives \<open>''30''\<close>.
\<close>

theorem encode85_reference_expansion:
  "encode85 bs = Some (encode_ref bs) \<and>
   length z85digits = 85 \<and>
   encode85 [] = Some [] \<and>
   encode85 [0x00, 0x00, 0x00, 0x00] = Some ''00000'' \<and>
   encode85 [0xFF] = Some ''30''"
proof -
  have "encode_ref [] = []" by simp
  then show ?thesis
    by (simp only: encode85_eq_encode_ref encode_ref_zero_block encode_ref_single_255 length_z85digits simp_thms)
qed

text \<open>
  Claim C2. For every byte sequence of length \<open>n\<close> the encoder returns a string of
  length \<open>5 * (n div 4)\<close>, plus \<open>n mod 4 + 1\<close> when \<open>n mod 4\<close> is positive; the empty
  input gives the empty string.
\<close>

theorem encode85_length_law:
  "(\<exists>s. encode85 bs = Some s \<and>
        length s = 5 * (length bs div 4) +
                   (if length bs mod 4 > 0 then length bs mod 4 + 1 else 0)) \<and>
   encode85 [] = Some []"
  by (simp add: encode85_eq_encode_ref length_encode_ref)

section \<open>Splitting and parsing\<close>

lemma split_from_no_sep: "sep \<notin> set s \<Longrightarrow> split_from cur s sep = [cur @ s]"
  by (induction s arbitrary: cur) auto

lemma split_from_sep:
  "sep \<notin> set k \<Longrightarrow> split_from cur (k @ sep # r) sep = (cur @ k) # split_from [] r sep"
  by (induction k arbitrary: cur) auto

lemma fields_from_no_sep:
  "\<forall>c \<in> set e. \<not> f c \<Longrightarrow> cur @ e \<noteq> [] \<Longrightarrow> fields_from cur e f = [cur @ e]"
  by (induction e arbitrary: cur) simp_all

lemma Split_two_equals:
  "CHR ''='' \<notin> set k \<Longrightarrow> CHR ''='' \<notin> set v \<Longrightarrow>
   Split (k @ ''='' @ v @ ''='' @ rest) (CHR ''='') = k # v # Split rest (CHR ''='')"
  by (simp add: Split_def split_from_sep)

lemma parseKeyValues_entries_two_equals:
  assumes "CHR ''='' \<notin> set k" "CHR ''='' \<notin> set v"
  shows "parseKeyValues_entries ((k @ ''='' @ v @ ''='' @ rest) # entries) m
           = parseKeyValues_entries entries (m(k \<mapsto> v))"
  using Split_two_equals [OF assms, of rest]
  by (simp add: index_def Let_def)

lemma parseKeyValues_single_two_equals:
  assumes "CHR ''='' \<notin> set k" "CHR ''='' \<notin> set v"
    and "CHR '';'' \<notin> set (k @ v @ rest)"
  shows "parseKeyValues (k @ ''='' @ v @ ''='' @ rest) = Some [k \<mapsto> v]"
proof -
  have "FieldsFunc (k @ ''='' @ v @ ''='' @ rest) (\<lambda>c. c = CHR '';'')
          = [k @ ''='' @ v @ ''='' @ rest]"
    unfolding FieldsFunc_def using assms(3)
    by (subst fields_from_no_sep) auto
  then show ?thesis
    using parseKeyValues_entries_two_equals [OF assms(1,2), of rest "[]" Map.empty]
    by (simp add: parseKeyValues_def)
qed

lemma digits85_numeral:
  "digits85 (numeral n) v = digits85 (pred_numeral n) (v div 85) @ [z85digits ! (v mod 85)]"
proof -
  have "(numeral n :: nat) = Suc (pred_numeral n)" by (rule numeral_eq_Suc)
  then show ?thesis by (simp only: digits85.simps)
qed

text \<open>
  \<^verbatim>\<open>parseKeyValues\<close> panics exactly when some entry of the header holds no \<^verbatim>\<open>=\<close>, and
  this is the only way for \<^verbatim>\<open>encodedValue\<close> to panic.
\<close>

lemma split_from_not_Nil: "split_from cur s sep \<noteq> []"
  by (induction s arbitrary: cur) auto

lemma split_from_with_sep:
  "sep \<in> set s \<Longrightarrow> \<exists>a b rest. split_from cur s sep = a # b # rest"
proof (induction s arbitrary: cur)
  case Nil
  then show ?case by simp
next
  case (Cons c s)
  show ?case
  proof (cases "c = sep")
    case True
    obtain y ys where "split_from [] s sep = y # ys"
      using split_from_not_Nil [of "[]" s sep] by (auto simp: neq_Nil_conv)
    with True show ?thesis by simp
  next
    case False
    with Cons.prems have "sep \<in> set s" by simp
    from Cons.IH [OF this, of "cur @ [c]"] False show ?thesis by simp
  qed
qed

lemma parseKeyValues_entries_panics_iff:
  "parseKeyValues_entries entries m = None \<longleftrightarrow> (\<exists>e \<in> set entries. CHR ''='' \<notin> set e)"
proof (induction entries arbitrary: m)
  case Nil
  then show ?case by simp
next
  case (Cons e entries)
  show ?case
  proof (cases "CHR ''='' \<in> set e")
    case True
    then obtain a b rest where "Split e (CHR ''='') = a # b # rest"
      unfolding Split_def using split_from_with_sep by blast
    with True Cons.IH show ?thesis
      by (simp add: index_def Let_def)
  next
    case False
    then have "Split e (CHR ''='') = [e]"
      by (simp add: Split_def split_from_no_sep)
    with False show ?thesis
      by (simp add: index_def Let_def)
  qed
qed

lemma parseKeyValues_panics_iff:
  "parseKeyValues values = None \<longleftrightarrow>
     (\<exists>e \<in> set (FieldsFunc values (\<lambda>c. c = CHR '';'')). CHR ''='' \<notin> set e)"
  by (simp add: parseKeyValues_def parseKeyValues_entries_panics_iff)

lemma encodedValue_panics_iff:
  "encodedValue header name key = None \<longleftrightarrow>
     (\<exists>e \<in> set (FieldsFunc (Get header name) (\<lambda>c. c = CHR '';'')). CHR ''='' \<notin> set e)"
  by (auto simp: encodedValue_def parseKeyValues_panics_iff [symmetric] encode85_eq_encode_ref
        split: Option.bind_splits option.splits)

section \<open>The handler, case by case\<close>

text \<open>
  The encoder never panics, so the handler's answer depends on the path checks, the
  \<^verbatim>\<open>Content-Encoding\<close> header and the two calls of \<^verbatim>\<open>encodedValue\<close> only.
\<close>

lemma handler_short_path:
  "length (segments r) < 4 \<Longrightarrow> handler r = Http_Error StatusBadRequest ''Invalid URL path''"
  by (simp add: handler_def segments_def Let_def)

lemma handler_wrong_environment:
  "4 \<le> length (segments r) \<Longrightarrow> segments r ! 2 \<noteq> ''fcm'' \<Longrightarrow>
   handler r = Http_Error StatusBadRequest ''Invalid target environment''"
  by (simp add: handler_def segments_def Let_def)

lemma handler_missing_token:
  "4 \<le> length (segments r) \<Longrightarrow> segments r ! 2 = ''fcm'' \<Longrightarrow> segments r ! 3 = [] \<Longrightarrow>
   handler r = Http_Error StatusBadRequest ''Missing device token''"
  by (simp add: handler_def segments_def Let_def)

lemma handler_accepted_path:
  assumes "path_accepted r"
  shows "handler r =
    (if Get (Header r) ''Content-Encoding'' = ''aesgcm'' then
       (case encodedValue (Header r) ''Crypto-Key'' ''dh'' of
          None \<Rightarrow> Panic
        | Some (Inl err) \<Rightarrow> Http_Error StatusBadRequest ''Error retrieving public key''
        | Some (Inr publicKey) \<Rightarrow>
           (case encodedValue (Header r) ''Encryption'' ''salt'' of
              None \<Rightarrow> Panic
            | Some (Inl err) \<Rightarrow> Http_Error StatusBadRequest ''Error retrieving salt''
            | Some (Inr salt) \<Rightarrow>
                Queued
                  \<lparr>To = segments r ! 3,
                   Data = (if 4 < length (segments r)
                           then [''p'' \<mapsto> encode_ref (Body r),
                                 ''x'' \<mapsto> Join (drop 4 (segments r)) ''/'',
                                 ''k'' \<mapsto> publicKey, ''s'' \<mapsto> salt]
                           else [''p'' \<mapsto> encode_ref (Body r),
                                 ''k'' \<mapsto> publicKey, ''s'' \<mapsto> salt]),
                   MutableContent = True,
                   ContentAvailable = True,
                   Notification = \<lparr>Title = trumpet\<rparr>,
                   TimeToLive = (if Get (Header r) ''TTL'' \<noteq> []
                                 then map_option word_of_int (Atoi (Get (Header r) ''TTL''))
                                 else None),
                   CollapseKey = Get (Header r) ''Topic'',
                   Priority = (if Get (Header r) ''Urgency'' = ''very-low'' \<or>
                                  Get (Header r) ''Urgency'' = ''low''
                               then ''normal'' else ''high'')\<rparr>))
     else Http_Error StatusUnsupportedMediaType ''Unsupported content encoding'')"
  using assms
  by (simp add: handler_def path_accepted_def segments_def Let_def encode85_eq_encode_ref
        split: option.split sum.split)


lemma handler_rejects_bad_path: "\<not> path_accepted r \<Longrightarrow> path_rejection (handler r)"
proof -
  assume n: "\<not> path_accepted r"
  consider "length (segments r) < 4"
    | "4 \<le> length (segments r)" "segments r ! 2 \<noteq> ''fcm''"
    | "4 \<le> length (segments r)" "segments r ! 2 = ''fcm''" "segments r ! 3 = []"
    using n unfolding path_accepted_def by (meson not_le_imp_less)
  then show ?thesis
  proof cases
    case 1
    then show ?thesis by (simp add: handler_short_path path_rejection_def)
  next
    case 2
    then show ?thesis by (simp add: handler_wrong_environment path_rejection_def)
  next
    case 3
    then show ?thesis by (simp add: handler_missing_token path_rejection_def)
  qed
qed

lemma handler_accepted_no_path_rejection: "path_accepted r \<Longrightarrow> \<not> path_rejection (handler r)"
  by (simp add: handler_accepted_path path_rejection_def StatusBadRequest_def
        StatusUnsupportedMediaType_def split: option.split sum.split)

lemma path_rejection_not_Queued: "path_rejection out \<Longrightarrow> out \<noteq> Queued m"
  by (auto simp: path_rejection_def)

lemma handler_Queued_path: "handler r = Queued m \<Longrightarrow> path_accepted r"
  using handler_rejects_bad_path [of r] path_rejection_not_Queued [of "handler r" m] by auto

lemma handler_Queued_message:
  assumes "handler r = Queued m"
  shows "Get (Header r) ''Content-Encoding'' = ''aesgcm'' \<and>
    (\<exists>publicKey salt.
       encodedValue (Header r) ''Crypto-Key'' ''dh'' = Some (Inr publicKey) \<and>
       encodedValue (Header r) ''Encryption'' ''salt'' = Some (Inr salt) \<and>
       m = \<lparr>To = segments r ! 3,
            Data = (if 4 < length (segments r)
                    then [''p'' \<mapsto> encode_ref (Body r),
                          ''x'' \<mapsto> Join (drop 4 (segments r)) ''/'',
                          ''k'' \<mapsto> publicKey, ''s'' \<mapsto> salt]
                    else [''p'' \<mapsto> encode_ref (Body r),
                          ''k'' \<mapsto> publicKey, ''s'' \<mapsto> salt]),
            MutableContent = True,
            ContentAvailable = True,
            Notification = \<lparr>Title = trumpet\<rparr>,
            TimeToLive = (if Get (Header r) ''TTL'' \<noteq> []
                          then map_option word_of_int (Atoi (Get (Header r) ''TTL''))
                          else None),
            CollapseKey = Get (Header r) ''Topic'',
            Priority = (if Get (Header r) ''Urgency'' = ''very-low'' \<or>
                           Get (Header r) ''Urgency'' = ''low''
                        then ''normal'' else ''high'')\<rparr>)"
proof -
  have acc: "path_accepted r" using assms by (rule handler_Queued_path)
  show ?thesis
    using assms unfolding handler_accepted_path [OF acc]
    by (auto split: if_splits option.splits sum.splits)
qed

lemma encodedValue_Inr:
  assumes "encodedValue h name key = Some (Inr s)"
  shows "\<exists>kv v bytes. parseKeyValues (Get h name) = Some kv \<and> kv key = Some v \<and>
           DecodeString v = Some bytes \<and> encode85 bytes = Some s"
  using assms
  by (auto simp: encodedValue_def split: Option.bind_splits option.splits)

lemma Atoi_Some:
  assumes "Atoi s = Some n"
  shows "s \<noteq> [] \<and> - (2 ^ 63) \<le> n \<and> n < 2 ^ 63"
  using assms
  by (auto simp: Atoi_def Let_def split: if_splits option.splits)

lemma uint_ttl: "0 \<le> n \<Longrightarrow> n < 2 ^ 63 \<Longrightarrow> uint (word_of_int n :: 64 word) = n"
  by (simp add: uint_word_of_int take_bit_int_eq_self)

lemma handler_panics_iff:
  "handler r = Panic \<longleftrightarrow>
     path_accepted r \<and> Get (Header r) ''Content-Encoding'' = ''aesgcm'' \<and>
     (encodedValue (Header r) ''Crypto-Key'' ''dh'' = None \<or>
      (\<exists>publicKey. encodedValue (Header r) ''Crypto-Key'' ''dh'' = Some (Inr publicKey)) \<and>
      encodedValue (Header r) ''Encryption'' ''salt'' = None)"
proof (cases "path_accepted r")
  case True
  then show ?thesis
    by (auto simp: handler_accepted_path split: option.splits sum.splits)
next
  case False
  then have "path_rejection (handler r)" by (rule handler_rejects_bad_path)
  then have "handler r \<noteq> Panic" by (auto simp: path_rejection_def)
  with False show ?thesis by simp
qed

section \<open>Evaluations on concrete header values\<close>

lemma DecodeString_Hello: "DecodeString ''SGVsbG8'' = Some [0x48, 0x65, 0x6C, 0x6C, 0x6F]"
  by (simp add: DecodeString_def decodeMap_def encodeURL_def quantum_def)

lemma DecodeString_Hello_padded: "DecodeString ''SGVsbG8='' = None"
  by (simp add: DecodeString_def decodeMap_def encodeURL_def quantum_def)

lemma DecodeString_AAAA: "DecodeString ''AAAA'' = Some [0x00, 0x00, 0x00]"
  by (simp add: DecodeString_def decodeMap_def encodeURL_def quantum_def)

lemma encode85_Hello: "encode85 [0x48, 0x65, 0x6C, 0x6C, 0x6F] = Some ''nm=QN1q''"
  by (simp add: encode85_eq_encode_ref be_value_def digits85_numeral z85digits_def)

lemma encode85_three_zeros: "encode85 [0x00, 0x00, 0x00] = Some ''0000''"
  by (simp add: encode85_eq_encode_ref be_value_def digits85_numeral z85digits_def)

lemma parseKeyValues_dh: "parseKeyValues ''dh=SGVsbG8'' = Some [''dh'' \<mapsto> ''SGVsbG8'']"
  by (simp add: parseKeyValues_def FieldsFunc_def Split_def index_def)

lemma parseKeyValues_salt: "parseKeyValues ''salt=AAAA'' = Some [''salt'' \<mapsto> ''AAAA'']"
  by (simp add: parseKeyValues_def FieldsFunc_def Split_def index_def)

lemma encodedValue_dh:
  "Get h ''Crypto-Key'' = ''dh=SGVsbG8'' \<Longrightarrow>
   encodedValue h ''Crypto-Key'' ''dh'' = Some (Inr ''nm=QN1q'')"
  by (simp add: encodedValue_def parseKeyValues_dh DecodeString_Hello encode85_Hello)

lemma encodedValue_salt:
  "Get h ''Encryption'' = ''salt=AAAA'' \<Longrightarrow>
   encodedValue h ''Encryption'' ''salt'' = Some (Inr ''0000'')"
  by (simp add: encodedValue_def parseKeyValues_salt DecodeString_AAAA encode85_three_zeros)

lemma parseKeyValues_no_equals: "parseKeyValues ''dh'' = None"
  by (simp add: parseKeyValues_def FieldsFunc_def Split_def index_def)

lemma parseKeyValues_trailing_no_equals: "parseKeyValues ''dh=SGVsbG8;foo'' = None"
  by (simp add: parseKeyValues_def FieldsFunc_def Split_def index_def)

lemma example_path_accepted:
  "path_accepted \<lparr>Path = ''/relay-to/fcm/ABC123'', Header = h, Body = b\<rparr>"
  by (simp add: path_accepted_def segments_def Split_def)

lemma example_trailing_slash_segments:
  "segments \<lparr>Path = ''/relay-to/fcm/ABC123/'', Header = h, Body = b\<rparr>
     = [[], ''relay-to'', ''fcm'', ''ABC123'', []]"
  by (simp add: segments_def Split_def)

lemma Atoi_minus_one: "Atoi ''-1'' = Some (- 1)"
  by (simp add: Atoi_def)

lemma Atoi_60: "Atoi ''60'' = Some 60"
  by (simp add: Atoi_def)

lemma Atoi_soon: "Atoi ''soon'' = None"
  by (simp add: Atoi_def)

lemma example_request_queued:
  assumes "Get h ''Content-Encoding'' = ''aesgcm''" "Get h ''Crypto-Key'' = ''dh=SGVsbG8''"
    "Get h ''Encryption'' = ''salt=AAAA''"
  shows "\<exists>m. handler \<lparr>Path = ''/relay-to/fcm/ABC123'', Header = h, Body = b\<rparr> = Queued m"
  using assms
  by (simp add: handler_accepted_path [OF example_path_accepted] encodedValue_dh encodedValue_salt)

section \<open>Properties of the handler\<close>

text \<open>
  Claim C3. With \<^verbatim>\<open>Content-Encoding: aesgcm\<close>, a missing \<^verbatim>\<open>dh\<close> or \<^verbatim>\<open>salt\<close> entry, an
  entry without \<^verbatim>\<open>=\<close> and a value that is not base64url should each end in a 400
  answer and in no other failure. The handler does answer 400 for a missing key and
  for a decoding error, but an entry without \<^verbatim>\<open>=\<close> makes \<^verbatim>\<open>parts[1]\<close> in
  \<^verbatim>\<open>parseKeyValues\<close> panic: for the two requests below, whose \<^verbatim>\<open>Crypto-Key\<close> headers
  are \<^verbatim>\<open>dh=SGVsbG8;foo\<close> and \<^verbatim>\<open>dh\<close>, the handler panics and writes no 400 answer.
\<close>

theorem handler_malformed_entry_panics:
  "handler \<lparr>Path = ''/relay-to/fcm/ABC123'',
            Header = [''Content-Encoding'' \<mapsto> [''aesgcm''],
                      ''Crypto-Key'' \<mapsto> [''dh=SGVsbG8;foo''],
                      ''Encryption'' \<mapsto> [''salt=AAAA'']],
            Body = []\<rparr> = Panic \<and>
   handler \<lparr>Path = ''/relay-to/fcm/ABC123'',
            Header = [''Content-Encoding'' \<mapsto> [''aesgcm''],
                      ''Crypto-Key'' \<mapsto> [''dh''],
                      ''Encryption'' \<mapsto> [''salt=AAAA'']],
            Body = []\<rparr> = Panic"
proof -
  have acc: "path_accepted \<lparr>Path = ''/relay-to/fcm/ABC123'', Header = h, Body = []\<rparr>" for h
    by (simp add: path_accepted_def segments_def Split_def)
  show ?thesis
    by (simp add: handler_accepted_path [OF acc] Get_def encodedValue_def
          parseKeyValues_no_equals parseKeyValues_trailing_no_equals)
qed

text \<open>
  Claim C4. The handler splits the path at \<^verbatim>\<open>/\<close> and gives one of its three 400
  answers about the path exactly when there are fewer than four segments, or segment 2
  is not \<^verbatim>\<open>fcm\<close>, or segment 3 is empty. Otherwise segment 3 is the device token of the
  message, and the data field \<^verbatim>\<open>x\<close> is the segments from the fifth on joined by \<^verbatim>\<open>/\<close>
  when there are more than four of them, and absent when there are not. (The 400
  answers for the \<^verbatim>\<open>Crypto-Key\<close> and \<^verbatim>\<open>Encryption\<close> headers carry other messages and
  are not answers about the path.)
\<close>

theorem handler_path_validation:
  "(path_rejection (handler r) \<longleftrightarrow>
      length (segments r) < 4 \<or> segments r ! 2 \<noteq> ''fcm'' \<or> segments r ! 3 = []) \<and>
   (\<forall>m. handler r = Queued m \<longrightarrow>
      To m = segments r ! 3 \<and>
      Data m ''x'' = (if 4 < length (segments r)
                      then Some (Join (drop 4 (segments r)) ''/'') else None))"
proof -
  have "path_rejection (handler r) \<longleftrightarrow> \<not> path_accepted r"
    using handler_rejects_bad_path handler_accepted_no_path_rejection by blast
  then have a: "path_rejection (handler r) \<longleftrightarrow>
      length (segments r) < 4 \<or> segments r ! 2 \<noteq> ''fcm'' \<or> segments r ! 3 = []"
    by (auto simp: path_accepted_def)
  have b: "To m = segments r ! 3 \<and>
      Data m ''x'' = (if 4 < length (segments r)
                      then Some (Join (drop 4 (segments r)) ''/'') else None)"
    if "handler r = Queued m" for m
    using handler_Queued_message [OF that] by auto
  from a b show ?thesis by blast
qed

text \<open>
  The paths of the specification's examples: a token with and without a suffix, a
  wrong environment, an empty token, and a path that is too short.
\<close>

theorem handler_path_validation_witness:
  "(\<exists>m. handler \<lparr>Path = ''/relay-to/fcm/ABC123/foo/bar'',
                  Header = [''Content-Encoding'' \<mapsto> [''aesgcm''],
                            ''Crypto-Key'' \<mapsto> [''dh=SGVsbG8''],
                            ''Encryption'' \<mapsto> [''salt=AAAA'']],
                  Body = []\<rparr> = Queued m \<and>
        To m = ''ABC123'' \<and> Data m ''x'' = Some ''foo/bar'') \<and>
   (\<exists>m. handler \<lparr>Path = ''/relay-to/fcm/ABC123'',
                  Header = [''Content-Encoding'' \<mapsto> [''aesgcm''],
                            ''Crypto-Key'' \<mapsto> [''dh=SGVsbG8''],
                            ''Encryption'' \<mapsto> [''salt=AAAA'']],
                  Body = []\<rparr> = Queued m \<and>
        To m = ''ABC123'' \<and> Data m ''x'' = None) \<and>
   path_rejection (handler \<lparr>Path = ''/relay-to/other/ABC'', Header = Map.empty, Body = []\<rparr>) \<and>
   path_rejection (handler \<lparr>Path = ''/relay-to/fcm/'', Header = Map.empty, Body = []\<rparr>) \<and>
   path_rejection (handler \<lparr>Path = ''/relay-to'', Header = Map.empty, Body = []\<rparr>)"
proof -
  let ?h = "[''Content-Encoding'' \<mapsto> [''aesgcm''], ''Crypto-Key'' \<mapsto> [''dh=SGVsbG8''],
             ''Encryption'' \<mapsto> [''salt=AAAA'']]"
  let ?r1 = "\<lparr>Path = ''/relay-to/fcm/ABC123/foo/bar'', Header = ?h, Body = []\<rparr>"
  let ?r2 = "\<lparr>Path = ''/relay-to/fcm/ABC123'', Header = ?h, Body = []\<rparr>"
  have s1: "segments ?r1 = [[], ''relay-to'', ''fcm'', ''ABC123'', ''foo'', ''bar'']"
    by (simp add: segments_def Split_def)
  have s2: "segments ?r2 = [[], ''relay-to'', ''fcm'', ''ABC123'']"
    by (simp add: segments_def Split_def)
  have d: "encodedValue ?h ''Crypto-Key'' ''dh'' = Some (Inr ''nm=QN1q'')"
    by (rule encodedValue_dh) (simp add: Get_def)
  have s: "encodedValue ?h ''Encryption'' ''salt'' = Some (Inr ''0000'')"
    by (rule encodedValue_salt) (simp add: Get_def)
  have q1: "\<exists>m. handler ?r1 = Queued m"
    by (simp add: handler_accepted_path path_accepted_def s1 d s Get_def)
  have q2: "\<exists>m. handler ?r2 = Queued m"
    by (simp add: handler_accepted_path path_accepted_def s2 d s Get_def)
  have c1: ?thesis if "handler ?r1 = Queued m1" "handler ?r2 = Queued m2" for m1 m2
    using that handler_path_validation [of ?r1] handler_path_validation [of ?r2]
      handler_path_validation [of "\<lparr>Path = ''/relay-to/other/ABC'', Header = Map.empty, Body = []\<rparr>"]
      handler_path_validation [of "\<lparr>Path = ''/relay-to/fcm/'', Header = Map.empty, Body = []\<rparr>"]
      handler_path_validation [of "\<lparr>Path = ''/relay-to'', Header = Map.empty, Body = []\<rparr>"]
    by (simp add: s1 s2 segments_def Split_def)
  from q1 q2 c1 show ?thesis by blast
qed

text \<open>
  The content encoding in the older revision. For a request whose path passes the
  checks, the older handler answers 415 if and only if the \<^verbatim>\<open>Content-Encoding\<close> header
  is not the literal \<^verbatim>\<open>aesgcm\<close> (an absent header reads as the empty string); the answer
  is then \<^verbatim>\<open>Unsupported content encoding\<close> and no message is put on the queue. The
  later revision does not do this for every such request; see the last section.
\<close>

theorem handler_content_encoding:
  assumes "path_accepted r"
  shows "((\<exists>msg. handler r = Http_Error StatusUnsupportedMediaType msg) \<longleftrightarrow>
            Get (Header r) ''Content-Encoding'' \<noteq> ''aesgcm'') \<and>
         (Get (Header r) ''Content-Encoding'' \<noteq> ''aesgcm'' \<longrightarrow>
            handler r = Http_Error StatusUnsupportedMediaType ''Unsupported content encoding'' \<and>
            (\<forall>m. handler r \<noteq> Queued m))"
  by (simp add: handler_accepted_path [OF assms] StatusBadRequest_def
        StatusUnsupportedMediaType_def split: option.split sum.split)

theorem handler_content_encoding_witness:
  "handler \<lparr>Path = ''/relay-to/fcm/ABC123'',
            Header = [''Content-Encoding'' \<mapsto> [''gzip'']], Body = []\<rparr>
     = Http_Error 415 ''Unsupported content encoding'' \<and>
   handler \<lparr>Path = ''/relay-to/fcm/ABC123'', Header = Map.empty, Body = []\<rparr>
     = Http_Error 415 ''Unsupported content encoding'' \<and>
   (\<forall>msg. handler \<lparr>Path = ''/relay-to/fcm/ABC123'',
                    Header = [''Content-Encoding'' \<mapsto> [''aesgcm''],
                              ''Crypto-Key'' \<mapsto> [''dh=SGVsbG8''],
                              ''Encryption'' \<mapsto> [''salt=AAAA'']],
                    Body = []\<rparr> \<noteq> Http_Error 415 msg)"
proof -
  have acc: "path_accepted \<lparr>Path = ''/relay-to/fcm/ABC123'', Header = h, Body = []\<rparr>" for h
    by (simp add: path_accepted_def segments_def Split_def)
  show ?thesis
    using handler_content_encoding [OF acc, of "[''Content-Encoding'' \<mapsto> [''gzip'']]"]
      handler_content_encoding [OF acc, of Map.empty]
      handler_content_encoding [OF acc, of "[''Content-Encoding'' \<mapsto> [''aesgcm''],
                              ''Crypto-Key'' \<mapsto> [''dh=SGVsbG8''],
                              ''Encryption'' \<mapsto> [''salt=AAAA'']]"]
    by (simp add: Get_def StatusUnsupportedMediaType_def)
qed

text \<open>
  Claim C8. The priority of a queued message is \<^verbatim>\<open>normal\<close> if and only if the
  \<^verbatim>\<open>Urgency\<close> header is \<^verbatim>\<open>very-low\<close> or \<^verbatim>\<open>low\<close>, and \<^verbatim>\<open>high\<close> for every other value,
  the absent header included.
\<close>

theorem handler_priority:
  assumes "handler r = Queued m"
  shows "(Priority m = ''normal'' \<longleftrightarrow>
            Get (Header r) ''Urgency'' = ''very-low'' \<or> Get (Header r) ''Urgency'' = ''low'') \<and>
         (Priority m = ''high'' \<longleftrightarrow>
            \<not> (Get (Header r) ''Urgency'' = ''very-low'' \<or> Get (Header r) ''Urgency'' = ''low''))"
proof -
  have "Priority m = (if Get (Header r) ''Urgency'' = ''very-low'' \<or>
                         Get (Header r) ''Urgency'' = ''low''
                      then ''normal'' else ''high'')"
    using handler_Queued_message [OF assms] by auto
  then show ?thesis by simp
qed

theorem handler_priority_witness:
  "(\<exists>m. handler \<lparr>Path = ''/relay-to/fcm/ABC123'',
                  Header = [''Content-Encoding'' \<mapsto> [''aesgcm''],
                            ''Crypto-Key'' \<mapsto> [''dh=SGVsbG8''],
                            ''Encryption'' \<mapsto> [''salt=AAAA''],
                            ''Urgency'' \<mapsto> [''low'']],
                  Body = []\<rparr> = Queued m \<and> Priority m = ''normal'') \<and>
   (\<exists>m. handler \<lparr>Path = ''/relay-to/fcm/ABC123'',
                  Header = [''Content-Encoding'' \<mapsto> [''aesgcm''],
                            ''Crypto-Key'' \<mapsto> [''dh=SGVsbG8''],
                            ''Encryption'' \<mapsto> [''salt=AAAA''],
                            ''Urgency'' \<mapsto> [''high'']],
                  Body = []\<rparr> = Queued m \<and> Priority m = ''high'') \<and>
   (\<exists>m. handler \<lparr>Path = ''/relay-to/fcm/ABC123'',
                  Header = [''Content-Encoding'' \<mapsto> [''aesgcm''],
                            ''Crypto-Key'' \<mapsto> [''dh=SGVsbG8''],
                            ''Encryption'' \<mapsto> [''salt=AAAA'']],
                  Body = []\<rparr> = Queued m \<and> Priority m = ''high'')"
proof -
  let ?h = "[''Content-Encoding'' \<mapsto> [''aesgcm''], ''Crypto-Key'' \<mapsto> [''dh=SGVsbG8''],
             ''Encryption'' \<mapsto> [''salt=AAAA'']]"
  have acc: "path_accepted \<lparr>Path = ''/relay-to/fcm/ABC123'', Header = h, Body = []\<rparr>" for h
    by (simp add: path_accepted_def segments_def Split_def)
  have q: "\<exists>m. handler \<lparr>Path = ''/relay-to/fcm/ABC123'', Header = h, Body = []\<rparr> = Queued m"
    if "Get h ''Content-Encoding'' = ''aesgcm''" "Get h ''Crypto-Key'' = ''dh=SGVsbG8''"
      "Get h ''Encryption'' = ''salt=AAAA''" for h
    using that by (simp add: handler_accepted_path [OF acc] encodedValue_dh encodedValue_salt)
  have p: "Priority m = (if u = ''very-low'' \<or> u = ''low'' then ''normal'' else ''high'')"
    if "handler \<lparr>Path = ''/relay-to/fcm/ABC123'', Header = h, Body = []\<rparr> = Queued m"
       "Get h ''Urgency'' = u" for h m u
    using handler_priority [OF that(1)] that(2) by auto
  have 1: "\<exists>m. handler \<lparr>Path = ''/relay-to/fcm/ABC123'', Header = ?h(''Urgency'' \<mapsto> [''low'']),
                  Body = []\<rparr> = Queued m \<and> Priority m = ''normal''"
    using q [of "?h(''Urgency'' \<mapsto> [''low''])"] p [of "?h(''Urgency'' \<mapsto> [''low''])" _ "''low''"]
    by (auto simp: Get_def)
  have 2: "\<exists>m. handler \<lparr>Path = ''/relay-to/fcm/ABC123'', Header = ?h(''Urgency'' \<mapsto> [''high'']),
                  Body = []\<rparr> = Queued m \<and> Priority m = ''high''"
    using q [of "?h(''Urgency'' \<mapsto> [''high''])"] p [of "?h(''Urgency'' \<mapsto> [''high''])" _ "''high''"]
    by (auto simp: Get_def)
  have 3: "\<exists>m. handler \<lparr>Path = ''/relay-to/fcm/ABC123'', Header = ?h, Body = []\<rparr> = Queued m \<and>
                  Priority m = ''high''"
    using q [of ?h] p [of ?h _ "[]"]
    by (auto simp: Get_def)
  from 1 2 3 show ?thesis by simp
qed

text \<open>
  The data key \<^verbatim>\<open>x\<close> in the older revision. The handler tests the number of segments,
  not the extra string: for the path \<^verbatim>\<open>/relay-to/fcm/ABC123/\<close> there are five segments,
  the last one empty, so the extra string is empty and the key \<^verbatim>\<open>x\<close> is present all the
  same, holding the empty string.
\<close>

theorem handler_trailing_slash_counterexample:
  "handler \<lparr>Path = ''/relay-to/fcm/ABC123/'',
            Header = [''Content-Encoding'' \<mapsto> [''aesgcm''],
                      ''Crypto-Key'' \<mapsto> [''dh=SGVsbG8''],
                      ''Encryption'' \<mapsto> [''salt=AAAA'']],
            Body = []\<rparr>
     = Queued \<lparr>To = ''ABC123'',
               Data = [''p'' \<mapsto> [], ''x'' \<mapsto> [], ''k'' \<mapsto> ''nm=QN1q'', ''s'' \<mapsto> ''0000''],
               MutableContent = True,
               ContentAvailable = True,
               Notification = \<lparr>Title = trumpet\<rparr>,
               TimeToLive = None,
               CollapseKey = [],
               Priority = ''high''\<rparr> \<and>
   Join (drop 4 (Split ''/relay-to/fcm/ABC123/'' (CHR ''/''))) ''/'' = []"
proof -
  let ?h = "[''Content-Encoding'' \<mapsto> [''aesgcm''], ''Crypto-Key'' \<mapsto> [''dh=SGVsbG8''],
             ''Encryption'' \<mapsto> [''salt=AAAA'']]"
  have acc: "path_accepted \<lparr>Path = ''/relay-to/fcm/ABC123/'', Header = ?h, Body = []\<rparr>"
    by (simp add: path_accepted_def example_trailing_slash_segments)
  have d: "encodedValue ?h ''Crypto-Key'' ''dh'' = Some (Inr ''nm=QN1q'')"
    by (rule encodedValue_dh) (simp add: Get_def)
  have s: "encodedValue ?h ''Encryption'' ''salt'' = Some (Inr ''0000'')"
    by (rule encodedValue_salt) (simp add: Get_def)
  have j: "Join (drop 4 (Split ''/relay-to/fcm/ABC123/'' (CHR ''/''))) ''/'' = []"
    by (simp add: Split_def)
  show ?thesis
    by (simp add: handler_accepted_path [OF acc] example_trailing_slash_segments d s j Get_def)
qed

text \<open>
  Claim C7 says that a \<^verbatim>\<open>TTL\<close> header that parses as a decimal integer sets the
  time-to-live to that many seconds. \<^verbatim>\<open>strconv.Atoi\<close> accepts a sign: \<^verbatim>\<open>-1\<close> parses
  as \<open>- 1\<close>, and the conversion \<^verbatim>\<open>uint(ttl)\<close> makes it \<open>2 ^ 64 - 1\<close> seconds.
\<close>

theorem handler_negative_ttl_counterexample:
  "handler \<lparr>Path = ''/relay-to/fcm/ABC123'',
            Header = [''Content-Encoding'' \<mapsto> [''aesgcm''],
                      ''Crypto-Key'' \<mapsto> [''dh=SGVsbG8''],
                      ''Encryption'' \<mapsto> [''salt=AAAA''],
                      ''TTL'' \<mapsto> [''-1'']],
            Body = []\<rparr>
     = Queued \<lparr>To = ''ABC123'',
               Data = [''p'' \<mapsto> [], ''k'' \<mapsto> ''nm=QN1q'', ''s'' \<mapsto> ''0000''],
               MutableContent = True,
               ContentAvailable = True,
               Notification = \<lparr>Title = trumpet\<rparr>,
               TimeToLive = Some 18446744073709551615,
               CollapseKey = [],
               Priority = ''high''\<rparr> \<and>
   Atoi ''-1'' = Some (- 1)"
proof -
  let ?h = "[''Content-Encoding'' \<mapsto> [''aesgcm''], ''Crypto-Key'' \<mapsto> [''dh=SGVsbG8''],
             ''Encryption'' \<mapsto> [''salt=AAAA''], ''TTL'' \<mapsto> [''-1'']]"
  have s4: "segments \<lparr>Path = ''/relay-to/fcm/ABC123'', Header = ?h, Body = []\<rparr>
              = [[], ''relay-to'', ''fcm'', ''ABC123'']"
    by (simp add: segments_def Split_def)
  have d: "encodedValue ?h ''Crypto-Key'' ''dh'' = Some (Inr ''nm=QN1q'')"
    by (rule encodedValue_dh) (simp add: Get_def)
  have s: "encodedValue ?h ''Encryption'' ''salt'' = Some (Inr ''0000'')"
    by (rule encodedValue_salt) (simp add: Get_def)
  have w: "(word_of_int (- 1) :: 64 word) = 18446744073709551615"
    by simp
  show ?thesis
    by (simp add: handler_accepted_path [OF example_path_accepted] s4 d s Get_def
          Atoi_minus_one w)
qed

text \<open>
  The data of a message in the older revision. For every message that the older
  handler queues, the auxiliary data are one map from
  strings to strings with no key other than \<^verbatim>\<open>p\<close>, \<^verbatim>\<open>k\<close>, \<^verbatim>\<open>s\<close> and \<^verbatim>\<open>x\<close>: \<^verbatim>\<open>p\<close> holds
  the encoded body, \<^verbatim>\<open>k\<close> the encoding of the decoded \<^verbatim>\<open>dh\<close> value, \<^verbatim>\<open>s\<close> the encoding of
  the decoded \<^verbatim>\<open>salt\<close> value, and \<^verbatim>\<open>x\<close> is present exactly when the path has more than
  four segments, holding the joined suffix (which may be empty). The title is the
  fixed string.
\<close>

theorem handler_message_data:
  assumes "handler r = Queued m"
  shows "Data m ''p'' = encode85 (Body r) \<and> Data m ''p'' \<noteq> None \<and>
    (\<exists>kv v bytes. parseKeyValues (Get (Header r) ''Crypto-Key'') = Some kv \<and>
        kv ''dh'' = Some v \<and> DecodeString v = Some bytes \<and>
        Data m ''k'' = encode85 bytes \<and> Data m ''k'' \<noteq> None) \<and>
    (\<exists>kv v bytes. parseKeyValues (Get (Header r) ''Encryption'') = Some kv \<and>
        kv ''salt'' = Some v \<and> DecodeString v = Some bytes \<and>
        Data m ''s'' = encode85 bytes \<and> Data m ''s'' \<noteq> None) \<and>
    Data m ''x'' = (if 4 < length (segments r)
                    then Some (Join (drop 4 (segments r)) ''/'') else None) \<and>
    dom (Data m) \<subseteq> {''p'', ''k'', ''s'', ''x''} \<and>
    Title (Notification m) = trumpet"
proof -
  from handler_Queued_message [OF assms] obtain publicKey salt where
    k: "encodedValue (Header r) ''Crypto-Key'' ''dh'' = Some (Inr publicKey)" and
    s: "encodedValue (Header r) ''Encryption'' ''salt'' = Some (Inr salt)" and
    d: "Data m = (if 4 < length (segments r)
                  then [''p'' \<mapsto> encode_ref (Body r),
                        ''x'' \<mapsto> Join (drop 4 (segments r)) ''/'',
                        ''k'' \<mapsto> publicKey, ''s'' \<mapsto> salt]
                  else [''p'' \<mapsto> encode_ref (Body r),
                        ''k'' \<mapsto> publicKey, ''s'' \<mapsto> salt])" and
    t: "Title (Notification m) = trumpet"
    by auto
  have p: "Data m ''p'' = encode85 (Body r) \<and> Data m ''p'' \<noteq> None"
    by (simp add: d encode85_eq_encode_ref)
  have dk: "Data m ''k'' = Some publicKey" and ds: "Data m ''s'' = Some salt"
    by (simp_all add: d)
  have x: "Data m ''x'' = (if 4 < length (segments r)
                    then Some (Join (drop 4 (segments r)) ''/'') else None)"
    by (simp add: d)
  have dm: "dom (Data m) \<subseteq> {''p'', ''k'', ''s'', ''x''}"
    by (auto simp: d split: if_splits)
  from encodedValue_Inr [OF k] dk
  have kk: "\<exists>kv v bytes. parseKeyValues (Get (Header r) ''Crypto-Key'') = Some kv \<and>
        kv ''dh'' = Some v \<and> DecodeString v = Some bytes \<and>
        Data m ''k'' = encode85 bytes \<and> Data m ''k'' \<noteq> None"
    by auto
  from encodedValue_Inr [OF s] ds
  have ss: "\<exists>kv v bytes. parseKeyValues (Get (Header r) ''Encryption'') = Some kv \<and>
        kv ''salt'' = Some v \<and> DecodeString v = Some bytes \<and>
        Data m ''s'' = encode85 bytes \<and> Data m ''s'' \<noteq> None"
    by auto
  from p kk ss x dm t show ?thesis by blast
qed

theorem handler_message_data_witness:
  "\<exists>m. handler \<lparr>Path = ''/relay-to/fcm/ABC123/foo/bar'',
                 Header = [''Content-Encoding'' \<mapsto> [''aesgcm''],
                           ''Crypto-Key'' \<mapsto> [''dh=SGVsbG8''],
                           ''Encryption'' \<mapsto> [''salt=AAAA'']],
                 Body = [0xFF]\<rparr> = Queued m \<and>
       Data m ''p'' = Some ''30'' \<and> Data m ''x'' = Some ''foo/bar'' \<and>
       dom (Data m) \<subseteq> {''p'', ''k'', ''s'', ''x''} \<and> Title (Notification m) = trumpet"
proof -
  let ?h = "[''Content-Encoding'' \<mapsto> [''aesgcm''], ''Crypto-Key'' \<mapsto> [''dh=SGVsbG8''],
             ''Encryption'' \<mapsto> [''salt=AAAA'']]"
  let ?r = "\<lparr>Path = ''/relay-to/fcm/ABC123/foo/bar'', Header = ?h, Body = [0xFF]\<rparr>"
  have sg: "segments ?r = [[], ''relay-to'', ''fcm'', ''ABC123'', ''foo'', ''bar'']"
    by (simp add: segments_def Split_def)
  have d: "encodedValue ?h ''Crypto-Key'' ''dh'' = Some (Inr ''nm=QN1q'')"
    by (rule encodedValue_dh) (simp add: Get_def)
  have s: "encodedValue ?h ''Encryption'' ''salt'' = Some (Inr ''0000'')"
    by (rule encodedValue_salt) (simp add: Get_def)
  have "\<exists>m. handler ?r = Queued m"
    by (simp add: handler_accepted_path path_accepted_def sg d s Get_def)
  then obtain m where m: "handler ?r = Queued m" ..
  have e: "encode85 [0xFF] = Some ''30''"
    by (simp only: encode85_eq_encode_ref encode_ref_single_255)
  from handler_message_data [OF m] e sg
  have "Data m ''p'' = Some ''30'' \<and> Data m ''x'' = Some ''foo/bar'' \<and>
       dom (Data m) \<subseteq> {''p'', ''k'', ''s'', ''x''} \<and> Title (Notification m) = trumpet"
    by simp
  with m show ?thesis by blast
qed

text \<open>
  Claim C7, amended. For a request that is valid apart from its \<^verbatim>\<open>TTL\<close> header the
  handler queues a message whatever that header holds. When the header parses as an
  integer that is not negative, the time-to-live of the message is that number of
  seconds; when it does not parse, the message has no time-to-live, so that the
  backend's default applies.
\<close>

theorem handler_ttl:
  assumes "path_accepted r" "Get (Header r) ''Content-Encoding'' = ''aesgcm''"
    "encodedValue (Header r) ''Crypto-Key'' ''dh'' = Some (Inr publicKey)"
    "encodedValue (Header r) ''Encryption'' ''salt'' = Some (Inr salt)"
  shows "\<exists>m. handler r = Queued m \<and>
    (\<forall>n. Atoi (Get (Header r) ''TTL'') = Some n \<and> 0 \<le> n \<longrightarrow>
           (\<exists>w. TimeToLive m = Some w \<and> uint w = n)) \<and>
    (Atoi (Get (Header r) ''TTL'') = None \<longrightarrow> TimeToLive m = None)"
proof -
  have "\<exists>w. map_option word_of_int (Atoi s) = Some (w :: 64 word) \<and> s \<noteq> [] \<and> uint w = n"
    if "Atoi s = Some n" "0 \<le> n" for s n
    using Atoi_Some [OF that(1)] that by (simp add: uint_ttl)
  then show ?thesis
    by (auto simp: handler_accepted_path [OF assms(1)] assms(2-4))
qed

theorem handler_ttl_witness:
  "(\<exists>m w. handler \<lparr>Path = ''/relay-to/fcm/ABC123'',
                    Header = [''Content-Encoding'' \<mapsto> [''aesgcm''],
                              ''Crypto-Key'' \<mapsto> [''dh=SGVsbG8''],
                              ''Encryption'' \<mapsto> [''salt=AAAA''],
                              ''TTL'' \<mapsto> [''60'']],
                    Body = []\<rparr> = Queued m \<and> TimeToLive m = Some w \<and> uint w = 60) \<and>
   (\<exists>m. handler \<lparr>Path = ''/relay-to/fcm/ABC123'',
                  Header = [''Content-Encoding'' \<mapsto> [''aesgcm''],
                            ''Crypto-Key'' \<mapsto> [''dh=SGVsbG8''],
                            ''Encryption'' \<mapsto> [''salt=AAAA''],
                            ''TTL'' \<mapsto> [''soon'']],
                  Body = []\<rparr> = Queued m \<and> TimeToLive m = None)"
proof -
  let ?h = "[''Content-Encoding'' \<mapsto> [''aesgcm''], ''Crypto-Key'' \<mapsto> [''dh=SGVsbG8''],
             ''Encryption'' \<mapsto> [''salt=AAAA'']]"
  let ?h1 = "?h(''TTL'' \<mapsto> [''60''])" and ?h2 = "?h(''TTL'' \<mapsto> [''soon''])"
  have d1: "encodedValue ?h1 ''Crypto-Key'' ''dh'' = Some (Inr ''nm=QN1q'')"
    and d2: "encodedValue ?h2 ''Crypto-Key'' ''dh'' = Some (Inr ''nm=QN1q'')"
    by (rule encodedValue_dh, simp add: Get_def)+
  have s1: "encodedValue ?h1 ''Encryption'' ''salt'' = Some (Inr ''0000'')"
    and s2: "encodedValue ?h2 ''Encryption'' ''salt'' = Some (Inr ''0000'')"
    by (rule encodedValue_salt, simp add: Get_def)+
  have c1: "Get ?h1 ''Content-Encoding'' = ''aesgcm''" and c2: "Get ?h2 ''Content-Encoding'' = ''aesgcm''"
    by (simp_all add: Get_def)
  have t1: "Get ?h1 ''TTL'' = ''60''" and t2: "Get ?h2 ''TTL'' = ''soon''"
    by (simp_all add: Get_def)
  have 1: "\<exists>m w. handler \<lparr>Path = ''/relay-to/fcm/ABC123'', Header = ?h1, Body = []\<rparr> = Queued m \<and>
             TimeToLive m = Some w \<and> uint w = 60"
    using handler_ttl [of "\<lparr>Path = ''/relay-to/fcm/ABC123'', Header = ?h1, Body = []\<rparr>"
        "''nm=QN1q''" "''0000''"] example_path_accepted d1 s1 c1
    by (simp only: Request.simps t1 Atoi_60) auto
  have 2: "\<exists>m. handler \<lparr>Path = ''/relay-to/fcm/ABC123'', Header = ?h2, Body = []\<rparr> = Queued m \<and>
             TimeToLive m = None"
    using handler_ttl [of "\<lparr>Path = ''/relay-to/fcm/ABC123'', Header = ?h2, Body = []\<rparr>"
        "''nm=QN1q''" "''0000''"] example_path_accepted d2 s2 c2
    by (simp only: Request.simps t2 Atoi_soon) auto
  from 1 2 show ?thesis by simp
qed

text \<open>
  Claim C10. For an entry \<^verbatim>\<open>key=value1=value2\<close>, where \<^verbatim>\<open>key\<close> and \<^verbatim>\<open>value1\<close> hold no
  \<^verbatim>\<open>=\<close>, \<^verbatim>\<open>parseKeyValues\<close> stores under the key only the text between the first and the
  second \<^verbatim>\<open>=\<close>, in the loop over the entries and so for a header of this one entry.
  In particular the header \<^verbatim>\<open>dh=SGVsbG8=\<close> loses its padding and its value decodes,
  although the decoder refuses the padded value \<^verbatim>\<open>SGVsbG8=\<close>.
\<close>

theorem parseKeyValues_second_equals:
  assumes "CHR ''='' \<notin> set k" "CHR ''='' \<notin> set v"
  shows "parseKeyValues_entries ((k @ ''='' @ v @ ''='' @ rest) # entries) m
           = parseKeyValues_entries entries (m(k \<mapsto> v)) \<and>
         (CHR '';'' \<notin> set (k @ v @ rest) \<longrightarrow>
            parseKeyValues (k @ ''='' @ v @ ''='' @ rest) = Some [k \<mapsto> v]) \<and>
         encodedValue [''Crypto-Key'' \<mapsto> [''dh=SGVsbG8='']] ''Crypto-Key'' ''dh''
           = Some (Inr ''nm=QN1q'') \<and>
         DecodeString ''SGVsbG8'' = Some [0x48, 0x65, 0x6C, 0x6C, 0x6F] \<and>
         encode85 [0x48, 0x65, 0x6C, 0x6C, 0x6F] = Some ''nm=QN1q'' \<and>
         DecodeString ''SGVsbG8='' = None"
proof -
  have p: "parseKeyValues ''dh=SGVsbG8='' = Some [''dh'' \<mapsto> ''SGVsbG8'']"
    using parseKeyValues_single_two_equals [of "''dh''" "''SGVsbG8''" "[]"] by simp
  have e: "encodedValue [''Crypto-Key'' \<mapsto> [''dh=SGVsbG8='']] ''Crypto-Key'' ''dh''
           = Some (Inr ''nm=QN1q'')"
    by (simp add: encodedValue_def Get_def p DecodeString_Hello encode85_Hello)
  show ?thesis
    using parseKeyValues_entries_two_equals [OF assms, of rest entries m]
      parseKeyValues_single_two_equals [OF assms, of rest] e
    by (simp only: DecodeString_Hello encode85_Hello DecodeString_Hello_padded) blast
qed

theorem parseKeyValues_second_equals_witness:
  "parseKeyValues ''dh=SGVsbG8='' = Some [''dh'' \<mapsto> ''SGVsbG8''] \<and>
   parseKeyValues ''a=b=c=d'' = Some [''a'' \<mapsto> ''b''] \<and>
   parseKeyValues_entries [''a=b=c'', ''x=y''] Map.empty = Some [''a'' \<mapsto> ''b'', ''x'' \<mapsto> ''y'']"
proof -
  have 1: "parseKeyValues ''dh=SGVsbG8='' = Some [''dh'' \<mapsto> ''SGVsbG8'']"
    using parseKeyValues_second_equals [of "''dh''" "''SGVsbG8''" "[]"] by simp
  have 2: "parseKeyValues ''a=b=c=d'' = Some [''a'' \<mapsto> ''b'']"
    using parseKeyValues_second_equals [of "''a''" "''b''" "''c=d''"] by simp
  have "parseKeyValues_entries [''a=b=c'', ''x=y''] Map.empty
          = parseKeyValues_entries [''x=y''] [''a'' \<mapsto> ''b'']"
    using parseKeyValues_second_equals [of "''a''" "''b''" "''c''" "[''x=y'']" Map.empty] by simp
  then have 3: "parseKeyValues_entries [''a=b=c'', ''x=y''] Map.empty
          = Some [''a'' \<mapsto> ''b'', ''x'' \<mapsto> ''y'']"
    by (simp add: Split_def index_def)
  from 1 2 3 show ?thesis by simp
qed

section \<open>The handler of the later revision\<close>

text \<open>
  The message's own \<^verbatim>\<open>Data\<close> stays the nil map, so every assignment to it panics: the
  later handler never reaches the send. It panics for every accepted path of more
  than four segments, before it reads \<^verbatim>\<open>Content-Encoding\<close>, and for every accepted
  request whose \<^verbatim>\<open>dh\<close> value is found and decodes.
\<close>

lemma assign_Nil_map: "assign Nil_map k v = None"
  by (simp add: assign_def)

lemma handler_messaging_never_sends: "handler_messaging r \<noteq> Sent m"
  by (simp add: handler_messaging_def Let_def assign_Nil_map
        split: option.split sum.split)

lemma handler_messaging_extra_panics:
  "path_accepted r \<Longrightarrow> 4 < length (segments r) \<Longrightarrow> handler_messaging r = Messaging_Panic"
  by (simp add: handler_messaging_def path_accepted_def segments_def Let_def assign_Nil_map
        encode85_eq_encode_ref)

lemma handler_messaging_key_panics:
  "path_accepted r \<Longrightarrow> Get (Header r) ''Content-Encoding'' = ''aesgcm'' \<Longrightarrow>
   encodedValue (Header r) ''Crypto-Key'' ''dh'' = Some (Inr publicKey) \<Longrightarrow>
   handler_messaging r = Messaging_Panic"
  by (simp add: handler_messaging_def path_accepted_def segments_def Let_def assign_Nil_map
        encode85_eq_encode_ref)

text \<open>
  Claim C5. A request whose path passes the checks should be answered 415 if and
  only if its \<^verbatim>\<open>Content-Encoding\<close> is not \<^verbatim>\<open>aesgcm\<close>. The older handler does so (see
  \<open>handler_content_encoding\<close>). The later handler does not: for the path
  \<^verbatim>\<open>/relay-to/fcm/ABC123/foo\<close> with \<^verbatim>\<open>Content-Encoding: gzip\<close> it assigns
  \<^verbatim>\<open>message.Data["x"]\<close> to the nil map first and panics, where the older handler
  answers 415.
\<close>

theorem handler_messaging_content_encoding_panics:
  "handler_messaging \<lparr>Path = ''/relay-to/fcm/ABC123/foo'',
                      Header = [''Content-Encoding'' \<mapsto> [''gzip'']],
                      Body = []\<rparr> = Messaging_Panic \<and>
   handler \<lparr>Path = ''/relay-to/fcm/ABC123/foo'',
            Header = [''Content-Encoding'' \<mapsto> [''gzip'']],
            Body = []\<rparr> = Http_Error 415 ''Unsupported content encoding''"
proof -
  let ?r = "\<lparr>Path = ''/relay-to/fcm/ABC123/foo'',
             Header = [''Content-Encoding'' \<mapsto> [''gzip'']], Body = []\<rparr>"
  have sg: "segments ?r = [[], ''relay-to'', ''fcm'', ''ABC123'', ''foo'']"
    by (simp add: segments_def Split_def)
  have acc: "path_accepted ?r"
    by (simp add: path_accepted_def sg)
  have 1: "handler_messaging ?r = Messaging_Panic"
    by (rule handler_messaging_extra_panics [OF acc]) (simp add: sg)
  have 2: "handler ?r = Http_Error 415 ''Unsupported content encoding''"
    by (simp add: handler_accepted_path [OF acc] Get_def StatusUnsupportedMediaType_def)
  from 1 2 show ?thesis by simp
qed

text \<open>
  Claim C6. For a validated request the message should carry its auxiliary data in
  one map from strings to strings, with \<^verbatim>\<open>p\<close>, \<^verbatim>\<open>k\<close>, \<^verbatim>\<open>s\<close> and \<^verbatim>\<open>x\<close>. The later handler puts
  \<^verbatim>\<open>p\<close> into \<^verbatim>\<open>Android.Data\<close> and assigns \<^verbatim>\<open>x\<close>, \<^verbatim>\<open>k\<close> and \<^verbatim>\<open>s\<close> to the message's own
  \<^verbatim>\<open>Data\<close>, the nil map: for a request with a good path and good headers it panics at
  \<^verbatim>\<open>message.Data["k"]\<close>, and with a path suffix already at \<^verbatim>\<open>message.Data["x"]\<close>, so no
  message is built.
\<close>

theorem handler_messaging_data_panics:
  "handler_messaging \<lparr>Path = ''/relay-to/fcm/ABC123'',
                      Header = [''Content-Encoding'' \<mapsto> [''aesgcm''],
                                ''Crypto-Key'' \<mapsto> [''dh=SGVsbG8''],
                                ''Encryption'' \<mapsto> [''salt=AAAA'']],
                      Body = []\<rparr> = Messaging_Panic \<and>
   handler_messaging \<lparr>Path = ''/relay-to/fcm/ABC123/foo/bar'',
                      Header = [''Content-Encoding'' \<mapsto> [''aesgcm''],
                                ''Crypto-Key'' \<mapsto> [''dh=SGVsbG8''],
                                ''Encryption'' \<mapsto> [''salt=AAAA'']],
                      Body = []\<rparr> = Messaging_Panic"
proof -
  let ?h = "[''Content-Encoding'' \<mapsto> [''aesgcm''], ''Crypto-Key'' \<mapsto> [''dh=SGVsbG8''],
             ''Encryption'' \<mapsto> [''salt=AAAA'']]"
  let ?r2 = "\<lparr>Path = ''/relay-to/fcm/ABC123/foo/bar'', Header = ?h, Body = []\<rparr>"
  have d: "encodedValue ?h ''Crypto-Key'' ''dh'' = Some (Inr ''nm=QN1q'')"
    by (rule encodedValue_dh) (simp add: Get_def)
  have 1: "handler_messaging \<lparr>Path = ''/relay-to/fcm/ABC123'', Header = ?h, Body = []\<rparr>
             = Messaging_Panic"
    by (rule handler_messaging_key_panics [OF example_path_accepted, of _ _ "''nm=QN1q''"])
       (simp_all add: Get_def d)
  have sg: "segments ?r2 = [[], ''relay-to'', ''fcm'', ''ABC123'', ''foo'', ''bar'']"
    by (simp add: segments_def Split_def)
  have 2: "handler_messaging ?r2 = Messaging_Panic"
    by (rule handler_messaging_extra_panics) (simp_all add: path_accepted_def sg)
  from 1 2 show ?thesis by simp
qed

end
